theory Spec2Isabelle
  imports Complex_Main
begin

section \<open>The document model\<close>

text \<open>
  The page script \<^verbatim>\<open>script.js\<close> works on the browser's document. The parts of the
  document it reads and writes are modelled as records, every mutation as a function
  returning the new state. Array indices, which may be \<^verbatim>\<open>-1\<close>, are integers; the
  numbers of the layout are IEEE doubles (see below).

  Conventions of the model:
  \<^item> an element's \<^verbatim>\<open>classList\<close> is the list of its class names;
  \<^item> an attribute is a \<open>string option\<close>, \<open>None\<close> when the attribute is absent;
  \<^item> an element reference is the position of the element in the list that
    \<^verbatim>\<open>querySelectorAll\<close> returns (document order);
  \<^item> sections are not nested in one another: each section owns the list of its
    descendant elements.
\<close>

subsection \<open>Exceptions\<close>

datatype js_error = TypeError | ReferenceError | SecurityError | QuotaExceededError

text \<open>
  A call either returns normally with the new state, or throws: the mutations made
  before the throw stay in place, so the state at the throw is kept.
\<close>

datatype 'a outcome = Normal 'a | Throws js_error 'a

fun state_of :: "'a outcome \<Rightarrow> 'a" where
  "state_of (Normal s) = s"
| "state_of (Throws e s) = s"

fun thrown :: "'a outcome \<Rightarrow> js_error option" where
  "thrown (Normal s) = None"
| "thrown (Throws e s) = Some e"

text \<open>Sequencing of statements: a throw skips everything after it.\<close>

fun and_then :: "'a outcome \<Rightarrow> ('a \<Rightarrow> 'a outcome) \<Rightarrow> 'a outcome" where
  "and_then (Normal s) f = f s"
| "and_then (Throws e s) f = Throws e s"

subsection \<open>Numbers\<close>

text \<open>
  A JavaScript number is an IEEE 754 binary64 value: a real that the format represents,
  an infinity, or NaN. The two zeros are not told apart (nothing here divides by zero,
  and \<^verbatim>\<open><\<close> treats them as equal).
\<close>

datatype jsnum = Num real | PosInf | NegInf | NaN

text \<open>Rounding a non-negative real to an integer, a tie going to the even neighbour.\<close>

definition round_even :: "real \<Rightarrow> int" where
  "round_even n =
     (let f = \<lfloor>n\<rfloor>; r = n - of_int f
      in if r < 1 / 2 then f else if 1 / 2 < r then f + 1 else if even f then f else f + 1)"

text \<open>
  The binary exponent under which a magnitude \<open>a\<close> is rounded: the largest \<open>e\<close> from
  \<open>-1022\<close> to \<open>1023\<close> with \<open>2 powi e \<le> a\<close>, and \<open>-1022\<close> below that (the subnormal
  range). The search runs down from \<open>1023\<close>.
\<close>

primrec exp_search :: "nat \<Rightarrow> real \<Rightarrow> int" where
  "exp_search 0 a = -1022"
| "exp_search (Suc n) a =
     (if 2 powi (int (Suc n) - 1022) \<le> a then int (Suc n) - 1022 else exp_search n a)"

definition binade :: "real \<Rightarrow> int" where
  "binade a = exp_search 2045 a"

text \<open>
  Round to nearest, ties to even, with 53 significant bits: the magnitude is rounded to
  a multiple of \<open>2 powi (e - 52)\<close>; a result of \<open>2 powi 1024\<close> or more overflows to an
  infinity.
\<close>

definition round64 :: "real \<Rightarrow> jsnum" where
  "round64 x =
     (let a = \<bar>x\<bar>;
          q = 2 powi (binade a - 52);
          r = of_int (round_even (a / q)) * q
      in if 2 powi 1024 \<le> r then (if x < 0 then NegInf else PosInf)
         else Num (if x < 0 then - r else r))"

text \<open>\<^verbatim>\<open>a + b\<close>, \<^verbatim>\<open>-a\<close>, \<^verbatim>\<open>a - b\<close>, \<^verbatim>\<open>a / 2\<close>, \<^verbatim>\<open>Math.abs(a)\<close> and \<^verbatim>\<open>a < b\<close> on doubles.\<close>

fun js_add :: "jsnum \<Rightarrow> jsnum \<Rightarrow> jsnum" where
  "js_add (Num a) (Num b) = round64 (a + b)"
| "js_add NaN y = NaN"
| "js_add x NaN = NaN"
| "js_add PosInf NegInf = NaN"
| "js_add NegInf PosInf = NaN"
| "js_add PosInf y = PosInf"
| "js_add x PosInf = PosInf"
| "js_add NegInf y = NegInf"
| "js_add x NegInf = NegInf"

fun js_neg :: "jsnum \<Rightarrow> jsnum" where
  "js_neg (Num a) = Num (- a)"
| "js_neg PosInf = NegInf"
| "js_neg NegInf = PosInf"
| "js_neg NaN = NaN"

definition js_sub :: "jsnum \<Rightarrow> jsnum \<Rightarrow> jsnum" where
  "js_sub x y = js_add x (js_neg y)"

fun js_half :: "jsnum \<Rightarrow> jsnum" where
  "js_half (Num a) = round64 (a / 2)"
| "js_half x = x"

fun js_abs :: "jsnum \<Rightarrow> jsnum" where
  "js_abs (Num a) = Num \<bar>a\<bar>"
| "js_abs NegInf = PosInf"
| "js_abs x = x"

fun js_less :: "jsnum \<Rightarrow> jsnum \<Rightarrow> bool" where
  "js_less NaN y = False"
| "js_less x NaN = False"
| "js_less (Num a) (Num b) = (a < b)"
| "js_less (Num a) PosInf = True"
| "js_less (Num a) NegInf = False"
| "js_less PosInf y = False"
| "js_less NegInf NegInf = False"
| "js_less NegInf y = True"

text \<open>The real a finite double stands for (\<open>0\<close> for the others, which have none).\<close>

fun num_value :: "jsnum \<Rightarrow> real" where
  "num_value (Num a) = a"
| "num_value x = 0"

subsection \<open>Class lists\<close>

definition classList_contains :: "string \<Rightarrow> string list \<Rightarrow> bool" where
  "classList_contains c cs = (c \<in> set cs)"

definition classList_add :: "string \<Rightarrow> string list \<Rightarrow> string list" where
  "classList_add c cs = (if c \<in> set cs then cs else cs @ [c])"

definition classList_remove :: "string \<Rightarrow> string list \<Rightarrow> string list" where
  "classList_remove c cs = filter (\<lambda>x. x \<noteq> c) cs"

definition classList_toggle :: "string \<Rightarrow> bool \<Rightarrow> string list \<Rightarrow> string list" where
  "classList_toggle c force cs = (if force then classList_add c cs else classList_remove c cs)"

subsection \<open>Elements, sections, navigation links\<close>

text \<open>A descendant element of a section: its classes and its inline transition delay.\<close>

record element =
  el_classList :: "string list"
  transitionDelay :: string

text \<open>
  A section: \<open>sec_id\<close> is \<^verbatim>\<open>s.id\<close> (the empty string when the element has no id),
  \<open>rect_top\<close> and \<open>rect_height\<close> are the top and the height of its bounding box. The
  script reads them, like every other layout value, as doubles: \<open>round64\<close> of the
  field.
\<close>

record section_el =
  sec_id :: string
  sec_classList :: "string list"
  aria_hidden :: "string option"
  descendants :: "element list"
  rect_top :: real
  rect_height :: real

text \<open>
  A navigation link (class \<^verbatim>\<open>nav-link\<close>). The markup gives every navigation link an
  \<^verbatim>\<open>href\<close>, so \<^verbatim>\<open>getAttribute('href')\<close> is modelled as a string.
\<close>

record nav_link =
  href :: string
  aria_current :: "string option"

text \<open>
  The document. \<open>other_ids\<close> lists the ids of the elements that are not sections,
  \<open>focusable_ids\<close> the ids of the elements that accept focus; \<open>scroll_target\<close> is the
  element last scrolled into view and \<open>focused\<close> the element holding keyboard focus.
\<close>

record doc =
  sections :: "section_el list"
  nav_links :: "nav_link list"
  other_ids :: "string list"
  focusable_ids :: "string list"
  scroll_target :: "string option"
  focused :: "string option"
  innerHeight :: real

definition is_active :: "section_el \<Rightarrow> bool" where
  "is_active s = classList_contains ''active'' (sec_classList s)"

definition is_visible :: "element \<Rightarrow> bool" where
  "is_visible e = classList_contains ''is-visible'' (el_classList e)"

text \<open>
  The selector \<^verbatim>\<open>.animate-slide-in, .animate-fade-in, .reveal, .glow-in\<close> of
  \<^verbatim>\<open>setActiveSection\<close>, and the shorter one of the intersection observer.
\<close>

definition is_reveal_target :: "element \<Rightarrow> bool" where
  "is_reveal_target e =
     (classList_contains ''animate-slide-in'' (el_classList e) \<or>
      classList_contains ''animate-fade-in'' (el_classList e) \<or>
      classList_contains ''reveal'' (el_classList e) \<or>
      classList_contains ''glow-in'' (el_classList e))"

definition is_observer_target :: "element \<Rightarrow> bool" where
  "is_observer_target e =
     (classList_contains ''animate-slide-in'' (el_classList e) \<or>
      classList_contains ''animate-fade-in'' (el_classList e) \<or>
      classList_contains ''reveal'' (el_classList e))"

definition reveal_targets :: "section_el \<Rightarrow> element list" where
  "reveal_targets s = filter is_reveal_target (descendants s)"

subsection \<open>Number formatting\<close>

text \<open>The template literal \<^verbatim>\<open>`${i * 70}ms`\<close>: a decimal numeral followed by \<^verbatim>\<open>ms\<close>.\<close>

fun decimal :: "nat \<Rightarrow> string" where
  "decimal n =
     (if n < 10 then [''0123456789'' ! n]
      else decimal (n div 10) @ [''0123456789'' ! (n mod 10)])"

declare decimal.simps [simp del]

definition ms_delay :: "nat \<Rightarrow> string" where
  "ms_delay i = decimal (i * 70) @ ''ms''"

section \<open>Section activation\<close>

subsection \<open>\<^verbatim>\<open>getSections\<close>, \<^verbatim>\<open>getActiveIndex\<close>\<close>

definition getSections :: "doc \<Rightarrow> section_el list" where
  "getSections d = sections d"

text \<open>\<^verbatim>\<open>Array.prototype.findIndex\<close>: the first position where the test holds, else \<open>-1\<close>.\<close>

fun findIndex :: "('a \<Rightarrow> bool) \<Rightarrow> 'a list \<Rightarrow> int" where
  "findIndex P [] = -1"
| "findIndex P (x # xs) =
     (if P x then 0 else (let r = findIndex P xs in if r < 0 then -1 else r + 1))"

definition getActiveIndex :: "doc \<Rightarrow> int" where
  "getActiveIndex d = findIndex is_active (getSections d)"

subsection \<open>\<^verbatim>\<open>updateNavCurrent\<close>\<close>

text \<open>
  \<^verbatim>\<open>sections[activeIndex]\<close> is \<^verbatim>\<open>undefined\<close> (falsy) when \<open>activeIndex\<close> is \<open>-1\<close>;
  \<^verbatim>\<open>href.slice(1)\<close> drops the leading \<^verbatim>\<open>#\<close>.
\<close>

definition updateNavCurrent :: "doc \<Rightarrow> doc" where
  "updateNavCurrent d =
     (let secs = getSections d;
          activeIndex = findIndex is_active secs
      in d\<lparr>nav_links :=
           map (\<lambda>link.
                  let target = drop 1 (href link)
                  in if 0 \<le> activeIndex \<and> target = sec_id (secs ! nat activeIndex)
                     then link\<lparr>aria_current := Some ''page''\<rparr>
                     else link\<lparr>aria_current := None\<rparr>)
               (nav_links d)\<rparr>)"

subsection \<open>\<^verbatim>\<open>setActiveSection\<close>\<close>

text \<open>
  The inner loop over \<^verbatim>\<open>targets\<close>: the \<open>i\<close>-th matching descendant gets the delay
  \<open>i * 70\<close> ms and the class \<^verbatim>\<open>is-visible\<close>; the other descendants are left alone.
\<close>

definition reveal :: "nat \<Rightarrow> element \<Rightarrow> element" where
  "reveal i e =
     e\<lparr>el_classList := classList_add ''is-visible'' (el_classList e),
       transitionDelay := ms_delay i\<rparr>"

fun stagger :: "nat \<Rightarrow> element list \<Rightarrow> element list" where
  "stagger i [] = []"
| "stagger i (e # es) =
     (if is_reveal_target e then reveal i e # stagger (Suc i) es else e # stagger i es)"

text \<open>
  The loop over \<^verbatim>\<open>prevTargets\<close> (the targets that carry \<^verbatim>\<open>is-visible\<close>), run for a
  section that is not the active one.
\<close>

definition conceal :: "element \<Rightarrow> element" where
  "conceal e =
     e\<lparr>el_classList := classList_remove ''is-visible'' (el_classList e),
       transitionDelay := ''''\<rparr>"

definition hide_targets :: "element list \<Rightarrow> element list" where
  "hide_targets es =
     map (\<lambda>e. if is_reveal_target e \<and> is_visible e then conceal e else e) es"

text \<open>The body of \<^verbatim>\<open>sections.forEach\<close> for one section; \<^verbatim>\<open>String(!isActive)\<close>.\<close>

definition activate :: "string \<Rightarrow> section_el \<Rightarrow> section_el" where
  "activate ident s =
     (let isActive = (sec_id s = ident);
          s1 = s\<lparr>sec_classList := classList_toggle ''active'' isActive (sec_classList s),
                 aria_hidden := Some (if isActive then ''false'' else ''true''),
                 descendants := stagger 0 (descendants s)\<rparr>
      in if \<not> isActive then s1\<lparr>descendants := hide_targets (descendants s1)\<rparr> else s1)"

definition setActiveSection :: "string \<Rightarrow> doc \<Rightarrow> doc" where
  "setActiveSection ident d =
     updateNavCurrent (d\<lparr>sections := map (activate ident) (getSections d)\<rparr>)"

subsection \<open>Programmatic and keyboard navigation\<close>

text \<open>
  \<^verbatim>\<open>document.getElementById\<close>: the element is identified by its id; the empty string
  matches no element. Sections and the other elements of the page are searched.
\<close>

definition getElementById :: "string \<Rightarrow> doc \<Rightarrow> string option" where
  "getElementById ident d =
     (if ident \<noteq> [] \<and> (ident \<in> set (map sec_id (sections d)) \<or> ident \<in> set (other_ids d))
      then Some ident else None)"

definition scrollIntoView :: "string \<Rightarrow> doc \<Rightarrow> doc" where
  "scrollIntoView el d = d\<lparr>scroll_target := Some el\<rparr>"

text \<open>
  \<^verbatim>\<open>try { section.focus({ preventScroll: true }); } catch (e) {}\<close>: best effort; an
  element that does not accept focus keeps the focus where it is.
\<close>

definition focus_el :: "string \<Rightarrow> doc \<Rightarrow> doc" where
  "focus_el el d = (if el \<in> set (focusable_ids d) then d\<lparr>focused := Some el\<rparr> else d)"

definition navigateToSection :: "string \<Rightarrow> doc \<Rightarrow> doc" where
  "navigateToSection ident d =
     (case getElementById ident d of
        None \<Rightarrow> d
      | Some el \<Rightarrow> setActiveSection ident (focus_el el (scrollIntoView el d)))"

definition goToNextSection :: "doc \<Rightarrow> doc" where
  "goToNextSection d =
     (let idx = getActiveIndex d; secs = getSections d
      in if idx < int (length secs) - 1
         then navigateToSection (sec_id (secs ! nat (idx + 1))) d else d)"

definition goToPrevSection :: "doc \<Rightarrow> doc" where
  "goToPrevSection d =
     (let idx = getActiveIndex d; secs = getSections d
      in if idx > 0
         then navigateToSection (sec_id (secs ! nat (idx - 1))) d else d)"

text \<open>The \<^verbatim>\<open>keydown\<close> listener of \<^verbatim>\<open>initNavigation\<close>, by \<^verbatim>\<open>e.key\<close>.\<close>

definition keydown :: "string \<Rightarrow> doc \<Rightarrow> doc" where
  "keydown key d =
     (if key = ''ArrowDown'' \<or> key = ''PageDown'' then goToNextSection d
      else if key = ''ArrowUp'' \<or> key = ''PageUp'' then goToPrevSection d
      else d)"

subsection \<open>The intersection observer\<close>

text \<open>
  One entry of a callback batch: the observed section (by position) and its
  intersection ratio. The observer adds or removes \<^verbatim>\<open>active\<close> on that section alone.
\<close>

definition show_target :: "element \<Rightarrow> element" where
  "show_target e =
     (if is_observer_target e
      then e\<lparr>el_classList := classList_add ''is-visible'' (el_classList e)\<rparr> else e)"

definition observe_entry :: "nat \<times> real \<Rightarrow> doc \<Rightarrow> doc" where
  "observe_entry entry d =
     (let i = fst entry; ratio = snd entry
      in if i < length (sections d) then
           (let s = sections d ! i
            in if ratio > 0.5 then
                 updateNavCurrent
                   (d\<lparr>sections := (sections d)
                        [i := s\<lparr>sec_classList := classList_add ''active'' (sec_classList s),
                                descendants := map show_target (descendants s)\<rparr>]\<rparr>)
               else
                 d\<lparr>sections := (sections d)
                      [i := s\<lparr>sec_classList := classList_remove ''active'' (sec_classList s)\<rparr>]\<rparr>)
         else d)"

definition observer_callback :: "(nat \<times> real) list \<Rightarrow> doc \<Rightarrow> doc" where
  "observer_callback entries d = fold observe_entry entries d"

section \<open>Nearest-element resolution\<close>

text \<open>
  Both resolvers run the same loop over the computed distances:
  \<^verbatim>\<open>if (dist < minDist) { minDist = dist; closest = ... }\<close>, starting from
  \<^verbatim>\<open>minDist = Infinity\<close> and the first element.
\<close>

fun closest_scan :: "nat \<Rightarrow> jsnum list \<Rightarrow> nat \<times> jsnum \<Rightarrow> nat \<times> jsnum" where
  "closest_scan i [] acc = acc"
| "closest_scan i (x # xs) acc =
     closest_scan (Suc i) xs (if js_less x (snd acc) then (i, x) else acc)"

text \<open>
  \<^verbatim>\<open>center = rect.top + rect.height / 2; dist = Math.abs(center - viewportCenter)\<close>,
  each operation rounding as the double arithmetic does.
\<close>

definition section_dist :: "jsnum \<Rightarrow> section_el \<Rightarrow> jsnum" where
  "section_dist viewportCenter s =
     (let center = js_add (round64 (rect_top s)) (js_half (round64 (rect_height s)))
      in js_abs (js_sub center viewportCenter))"

definition viewport_center :: "doc \<Rightarrow> jsnum" where
  "viewport_center d = js_half (round64 (innerHeight d))"

definition chooseClosestSection :: "doc \<Rightarrow> nat option" where
  "chooseClosestSection d =
     (let secs = getSections d
      in if length secs = 0 then None
         else Some (fst (closest_scan 0 (map (section_dist (viewport_center d)) secs)
                                      (0, PosInf))))"

text \<open>
  The distance the same formula gives without rounding, from the doubles the layout
  reports: the distance in the plain sense of the word.
\<close>

definition exact_section_dist :: "doc \<Rightarrow> section_el \<Rightarrow> real" where
  "exact_section_dist d s =
     \<bar>(num_value (round64 (rect_top s)) + num_value (round64 (rect_height s)) / 2)
        - num_value (round64 (innerHeight d)) / 2\<bar>"

text \<open>The timer callback of \<^verbatim>\<open>initScrollWatcher\<close>, run once scrolling has stopped.\<close>

definition scroll_settled :: "doc \<Rightarrow> doc" where
  "scroll_settled d =
     (case chooseClosestSection d of
        None \<Rightarrow> d
      | Some i \<Rightarrow> setActiveSection (sec_id (getSections d ! i)) d)"

text \<open>Scrolling and resizing change what the layout reports, and nothing else.\<close>

definition relayout :: "(real \<times> real) list \<Rightarrow> real \<Rightarrow> doc \<Rightarrow> doc" where
  "relayout rects h d =
     d\<lparr>sections :=
         map (\<lambda>(i, s). if i < length rects
                        then s\<lparr>rect_top := fst (rects ! i), rect_height := snd (rects ! i)\<rparr>
                        else s)
             (enumerate 0 (sections d)),
       innerHeight := h\<rparr>"

subsection \<open>The carousel\<close>

record card_el =
  offsetLeft :: real
  offsetWidth :: real
  card_classList :: "string list"

record carousel =
  scrollLeft :: real
  clientWidth :: real
  cards :: "card_el list"
  indicators :: "string list list"
  currentIndex :: int

definition card_dist :: "jsnum \<Rightarrow> card_el \<Rightarrow> jsnum" where
  "card_dist center c =
     (let cardCenter = js_add (round64 (offsetLeft c)) (js_half (round64 (offsetWidth c)))
      in js_abs (js_sub cardCenter center))"

definition carousel_center :: "carousel \<Rightarrow> jsnum" where
  "carousel_center c = js_add (round64 (scrollLeft c)) (js_half (round64 (clientWidth c)))"

definition indexFromScroll :: "carousel \<Rightarrow> nat" where
  "indexFromScroll c =
     fst (closest_scan 0 (map (card_dist (carousel_center c)) (cards c)) (0, PosInf))"

text \<open>
  What the two resolvers read from the layout. Nothing else enters their result.
\<close>

definition section_geometry :: "doc \<Rightarrow> (real \<times> real) list \<times> real" where
  "section_geometry d = (map (\<lambda>s. (rect_top s, rect_height s)) (sections d), innerHeight d)"

definition carousel_geometry :: "carousel \<Rightarrow> real \<times> real \<times> (real \<times> real) list" where
  "carousel_geometry c =
     (scrollLeft c, clientWidth c, map (\<lambda>k. (offsetLeft k, offsetWidth k)) (cards c))"

text \<open>
  The initial state set at the end of \<^verbatim>\<open>initProjectCarousel\<close>: indicator and card
  \<open>0\<close> are marked, the others unmarked.
\<close>

definition mark_only :: "string \<Rightarrow> int \<Rightarrow> string list list \<Rightarrow> string list list" where
  "mark_only c index cls =
     map (\<lambda>(i, l). classList_toggle c (int i = index) l) (enumerate 0 cls)"

definition carousel_initial :: "carousel \<Rightarrow> carousel" where
  "carousel_initial c =
     c\<lparr>currentIndex := 0,
       indicators := mark_only ''active'' 0 (indicators c),
       cards := map (\<lambda>(k, l). k\<lparr>card_classList := l\<rparr>)
                  (zip (cards c) (mark_only ''active-slide'' 0 (map card_classList (cards c))))\<rparr>"

section \<open>Events and reachable states\<close>

datatype event =
    ObserverCallback "(nat \<times> real) list"
  | Layout "(real \<times> real) list" real
  | ScrollSettled
  | Navigate string
  | KeyDown string

fun handle :: "event \<Rightarrow> doc \<Rightarrow> doc" where
  "handle (ObserverCallback entries) d = observer_callback entries d"
| "handle (Layout rects h) d = relayout rects h d"
| "handle ScrollSettled d = scroll_settled d"
| "handle (Navigate ident) d = navigateToSection ident d"
| "handle (KeyDown key) d = keydown key d"

definition run_events :: "event list \<Rightarrow> doc \<Rightarrow> doc" where
  "run_events es d = fold handle es d"

text \<open>The last step of the load handler: \<^verbatim>\<open>if (first) setActiveSection(first.id)\<close>.\<close>

definition bootstrap :: "doc \<Rightarrow> doc" where
  "bootstrap d =
     (case getSections d of [] \<Rightarrow> d | first # rest \<Rightarrow> setActiveSection (sec_id first) d)"

definition active_count :: "doc \<Rightarrow> nat" where
  "active_count d = length (filter is_active (sections d))"

text \<open>
  The events whose handler writes the active flag through \<^verbatim>\<open>setActiveSection\<close> with
  the id of a section, or not at all: everything but an observer callback and a
  navigation request to the id of an element that is not a section.
\<close>

fun through_controller :: "doc \<Rightarrow> event \<Rightarrow> bool" where
  "through_controller d (ObserverCallback entries) = False"
| "through_controller d (Navigate ident) =
     (ident \<in> set (map sec_id (sections d)) \<or> ident \<notin> set (other_ids d))"
| "through_controller d e = True"

section \<open>Theme\<close>

text \<open>
  \<^verbatim>\<open>localStorage\<close>, as far as the script uses it: the value saved under the key
  \<^verbatim>\<open>jz-theme\<close>. Reaching the storage object throws when the host denies access to
  it; writing throws when the quota is used up.
\<close>

record storage =
  access_denied :: bool
  quota_exceeded :: bool
  saved_theme :: "string option"

definition getItem :: "storage \<Rightarrow> js_error + string option" where
  "getItem st = (if access_denied st then Inl SecurityError else Inr (saved_theme st))"

definition setItem :: "string \<Rightarrow> storage \<Rightarrow> js_error + storage" where
  "setItem v st =
     (if access_denied st then Inl SecurityError
      else if quota_exceeded st then Inl QuotaExceededError
      else Inr (st\<lparr>saved_theme := Some v\<rparr>))"

text \<open>
  The button \<^verbatim>\<open>#theme-toggle\<close>: \<open>toggle_text\<close> and \<open>toggle_icon\<close> are the text of its
  children \<^verbatim>\<open>.toggle-text\<close> and \<^verbatim>\<open>.toggle-icon\<close>, \<open>None\<close> when the child is missing.
\<close>

record theme_button =
  aria_pressed :: "string option"
  toggle_text :: "string option"
  toggle_icon :: "string option"

text \<open>
  The contact form: a field is \<open>None\<close> when \<^verbatim>\<open>form.querySelector\<close> finds nothing.
  What the user typed is a list of UTF-16 code units, as a JavaScript string is.
\<close>

type_synonym js_string = "nat list"

record form_field =
  fvalue :: js_string
  fdefault :: js_string
  error_slot :: "string option"
  aria_invalid :: "string option"

record form =
  name_field :: "form_field option"
  email_field :: "form_field option"
  message_field :: "form_field option"
  form_status :: "string option"

datatype listener =
    NavLinkClick | DocKeydown | SectionObserver | FormSubmit | FieldInput string
  | CarouselHandlers | MenuHandlers | WindowScroll | ThemeToggleClick

text \<open>
  The whole page, with the listeners registered so far. \<open>year_el\<close> is the text of
  \<^verbatim>\<open>#year\<close>; \<open>menu_expanded\<close> is the \<^verbatim>\<open>aria-expanded\<close> attribute of the button
  \<^verbatim>\<open>.menu-toggle\<close>; both are \<open>None\<close> when the element is missing.
\<close>

record page =
  pg_doc :: doc
  data_theme :: "string option"
  local_storage :: storage
  theme_toggle :: "theme_button option"
  contact_form :: "form option"
  year_el :: "string option"
  project_carousel :: "carousel option"
  menu_expanded :: "string option option"
  primary_nav_present :: bool
  listeners :: "listener list"

text \<open>The two icons, as UTF-8: U+1F319, and U+2600 U+FE0F.\<close>

definition moon_icon :: string where
  "moon_icon = [CHR 0xF0, CHR 0x9F, CHR 0x8C, CHR 0x99]"

definition sun_icon :: string where
  "sun_icon = [CHR 0xE2, CHR 0x98, CHR 0x80, CHR 0xEF, CHR 0xB8, CHR 0x8F]"

definition updateThemeButton :: "string option \<Rightarrow> page \<Rightarrow> page outcome" where
  "updateThemeButton theme p =
     (case theme_toggle p of
        None \<Rightarrow> Normal p
      | Some btn \<Rightarrow>
          (let dark = (theme = Some ''dark'');
               b1 = btn\<lparr>aria_pressed := Some (if dark then ''true'' else ''false'')\<rparr>
           in case toggle_text b1 of
                None \<Rightarrow> Throws TypeError (p\<lparr>theme_toggle := Some b1\<rparr>)
              | Some t \<Rightarrow>
                  (let b2 = b1\<lparr>toggle_text := Some (if dark then ''Dark'' else ''Light'')\<rparr>
                   in case toggle_icon b2 of
                        None \<Rightarrow> Throws TypeError (p\<lparr>theme_toggle := Some b2\<rparr>)
                      | Some i \<Rightarrow>
                          Normal (p\<lparr>theme_toggle :=
                            Some (b2\<lparr>toggle_icon :=
                              Some (if dark then moon_icon else sun_icon)\<rparr>)\<rparr>))))"

text \<open>\<^verbatim>\<open>Theme.toggle\<close>: the write to storage sits in \<^verbatim>\<open>try { ... } catch(e){}\<close>.\<close>

definition current_theme :: "page \<Rightarrow> string" where
  "current_theme p = (if data_theme p = Some ''light'' then ''light'' else ''dark'')"

definition Theme_toggle :: "page \<Rightarrow> page outcome" where
  "Theme_toggle p =
     (let cur = current_theme p;
          next = (if cur = ''light'' then ''dark'' else ''light'');
          p1 = p\<lparr>data_theme := Some next\<rparr>;
          p2 = (case setItem next (local_storage p1) of
                  Inl e \<Rightarrow> p1
                | Inr st \<Rightarrow> p1\<lparr>local_storage := st\<rparr>)
      in updateThemeButton (Some next) p2)"

text \<open>
  \<^verbatim>\<open>Theme.init\<close>: the read from storage is not inside a \<^verbatim>\<open>try\<close>;
  \<^verbatim>\<open>if (saved)\<close> holds for a saved string that is not empty.
\<close>

definition Theme_init :: "page \<Rightarrow> page outcome" where
  "Theme_init p =
     (case getItem (local_storage p) of
        Inl e \<Rightarrow> Throws e p
      | Inr saved \<Rightarrow>
          (let p1 = (case saved of
                       None \<Rightarrow> p
                     | Some v \<Rightarrow> if v \<noteq> [] then p\<lparr>data_theme := Some v\<rparr> else p)
           in updateThemeButton (data_theme p1) p1))"

section \<open>The contact form\<close>

text \<open>
  White space and line terminators, as \<^verbatim>\<open>String.prototype.trim\<close> and the class \<^verbatim>\<open>\s\<close>
  know them: U+0009 to U+000D, U+0020, U+00A0, U+1680, U+2000 to U+200A, U+2028, U+2029,
  U+202F, U+205F, U+3000 and U+FEFF.
\<close>

definition is_space :: "nat \<Rightarrow> bool" where
  "is_space c =
     (c \<in> set [0x09, 0x0A, 0x0B, 0x0C, 0x0D, 0x20, 0xA0, 0x1680,
               0x2000, 0x2001, 0x2002, 0x2003, 0x2004, 0x2005, 0x2006, 0x2007, 0x2008,
               0x2009, 0x200A, 0x2028, 0x2029, 0x202F, 0x205F, 0x3000, 0xFEFF])"

definition trim :: "js_string \<Rightarrow> js_string" where
  "trim v = rev (dropWhile is_space (rev (dropWhile is_space v)))"

text \<open>
  \<^verbatim>\<open>/^[^\s@]+@[^\s@]+\.[^\s@]+$/\<close>: one \<^verbatim>\<open>@\<close> (code unit 64), no white space, something
  before the \<^verbatim>\<open>@\<close>, and after it a dot (code unit 46) with something on both sides.
\<close>

definition isEmailValid :: "js_string \<Rightarrow> bool" where
  "isEmailValid v =
     (let local_part = takeWhile (\<lambda>c. c \<noteq> 64) v;
          rest = dropWhile (\<lambda>c. c \<noteq> 64) v
      in local_part \<noteq> [] \<and> rest \<noteq> [] \<and> 64 \<notin> set (tl rest) \<and>
         list_all (\<lambda>c. \<not> is_space c) v \<and> 46 \<in> set (tl (butlast (tl rest))))"

text \<open>\<^verbatim>\<open>setError(input, msg)\<close>: the slot \<^verbatim>\<open>{id}-error\<close> is written only if it exists.\<close>

definition setError :: "form_field \<Rightarrow> string \<Rightarrow> form_field" where
  "setError input msg =
     input\<lparr>error_slot := (case error_slot input of None \<Rightarrow> None | Some t \<Rightarrow> Some msg),
           aria_invalid := Some (if msg \<noteq> [] then ''true'' else ''false'')\<rparr>"

definition set_status :: "string \<Rightarrow> form \<Rightarrow> form" where
  "set_status msg f =
     f\<lparr>form_status := (case form_status f of None \<Rightarrow> None | Some t \<Rightarrow> Some msg)\<rparr>"

text \<open>\<^verbatim>\<open>form.reset()\<close> gives every field its default value back.\<close>

definition reset_field :: "form_field option \<Rightarrow> form_field option" where
  "reset_field x = (case x of None \<Rightarrow> None | Some i \<Rightarrow> Some (i\<lparr>fvalue := fdefault i\<rparr>))"

definition form_reset :: "form \<Rightarrow> form" where
  "form_reset f =
     f\<lparr>name_field := reset_field (name_field f),
       email_field := reset_field (email_field f),
       message_field := reset_field (message_field f)\<rparr>"

text \<open>The success message; its dash is U+2014, written as UTF-8.\<close>

definition thanks_message :: string where
  "thanks_message =
     ''Thanks '' @ [CHR 0xE2, CHR 0x80, CHR 0x94] @ '' your message was sent (simulation).''"

subsection \<open>The submit listener of the earlier copy of the script\<close>

text \<open>
  The copy of the script kept beside \<^verbatim>\<open>script.js\<close> validates the three fields in turn;
  each check returns the field with its error set or cleared, and whether it passed.
\<close>

definition check_name :: "form_field \<Rightarrow> form_field \<times> bool" where
  "check_name i =
     (if trim (fvalue i) = [] then (setError i ''Please enter your name.'', False)
      else (setError i [], True))"

definition check_email :: "form_field \<Rightarrow> form_field \<times> bool" where
  "check_email i =
     (if trim (fvalue i) = [] then (setError i ''Please enter your email.'', False)
      else if \<not> isEmailValid (trim (fvalue i))
      then (setError i ''Please enter a valid email address.'', False)
      else (setError i [], True))"

definition check_message :: "form_field \<Rightarrow> form_field \<times> bool" where
  "check_message i =
     (if trim (fvalue i) = [] then (setError i ''Please enter a message.'', False)
      else (setError i [], True))"

definition submit_validating :: "form \<Rightarrow> form outcome" where
  "submit_validating f =
     (case name_field f of
        None \<Rightarrow> Throws TypeError f
      | Some n \<Rightarrow>
          (let f1 = f\<lparr>name_field := Some (fst (check_name n))\<rparr>
           in case email_field f1 of
                None \<Rightarrow> Throws TypeError f1
              | Some e \<Rightarrow>
                  (let f2 = f1\<lparr>email_field := Some (fst (check_email e))\<rparr>
                   in case message_field f2 of
                        None \<Rightarrow> Throws TypeError f2
                      | Some m \<Rightarrow>
                          (let f3 = f2\<lparr>message_field := Some (fst (check_message m))\<rparr>;
                               valid = (snd (check_name n) \<and> snd (check_email e) \<and>
                                        snd (check_message m))
                           in if \<not> valid
                              then Normal (set_status ''Please fix the errors above.'' f3)
                              else Normal (form_reset (set_status thanks_message f3))))))"

subsection \<open>The submit listener of \<^verbatim>\<open>script.js\<close>\<close>

text \<open>
  In \<^verbatim>\<open>script.js\<close> the body of the listener starts with statements of the carousel:
  \<^verbatim>\<open>const carouselRect = carousel.getBoundingClientRect(); ... cards.forEach(...);
  return closest;\<close> and only then the two statements that report success and reset the
  form. Neither \<^verbatim>\<open>carousel\<close> nor \<^verbatim>\<open>cards\<close> is declared in the scope of the listener:
  each resolves only if the page defines a global of that name, and a name that does
  not resolve throws. If both resolve the listener returns at \<^verbatim>\<open>return closest\<close>.
\<close>

record page_globals =
  carousel_global :: "(real \<times> real) option"
  cards_global :: "(real \<times> real) list option"

definition submit_script :: "page_globals \<Rightarrow> form \<Rightarrow> form outcome" where
  "submit_script g f =
     (case carousel_global g of
        None \<Rightarrow> Throws ReferenceError f
      | Some carouselRect \<Rightarrow>
          (case cards_global g of
             None \<Rightarrow> Throws ReferenceError f
           | Some cs \<Rightarrow> Normal f))"

section \<open>Initialisation\<close>

definition add_listener :: "listener \<Rightarrow> page \<Rightarrow> page" where
  "add_listener l p = p\<lparr>listeners := listeners p @ [l]\<rparr>"

definition initNavigation :: "page \<Rightarrow> page outcome" where
  "initNavigation p = Normal (add_listener DocKeydown (add_listener NavLinkClick p))"

definition initSectionObserver :: "page \<Rightarrow> page outcome" where
  "initSectionObserver p =
     (if length (getSections (pg_doc p)) = 0 then Normal p
      else Normal (add_listener SectionObserver p))"

text \<open>
  \<^verbatim>\<open>[name,email,message].forEach(i => i.addEventListener('input', ...))\<close>: a field that
  was not found is \<^verbatim>\<open>null\<close>, and the call on it throws.
\<close>

fun add_input_listeners :: "(string \<times> form_field option) list \<Rightarrow> page \<Rightarrow> page outcome" where
  "add_input_listeners [] p = Normal p"
| "add_input_listeners ((n, None) # r) p = Throws TypeError p"
| "add_input_listeners ((n, Some i) # r) p = add_input_listeners r (add_listener (FieldInput n) p)"

definition initForm :: "page \<Rightarrow> page outcome" where
  "initForm p =
     (case contact_form p of
        None \<Rightarrow> Normal p
      | Some f \<Rightarrow>
          add_input_listeners
            [(''name'', name_field f), (''email'', email_field f), (''message'', message_field f)]
            (add_listener FormSubmit p))"

text \<open>
  Between \<^verbatim>\<open>initForm\<close> and \<^verbatim>\<open>setYear\<close> the top level of \<^verbatim>\<open>script.js\<close> holds a stray
  \<^verbatim>\<open>try { card.tabIndex = -1; card.focus(...) } catch (e) {}\<close>: \<^verbatim>\<open>card\<close> is not
  declared there, the block catches its own error, and the page is left as it was.
\<close>

definition setYear :: "nat \<Rightarrow> page \<Rightarrow> page outcome" where
  "setYear y p =
     Normal (p\<lparr>year_el := (case year_el p of None \<Rightarrow> None | Some t \<Rightarrow> Some (decimal y))\<rparr>)"

definition initProjectCarousel :: "page \<Rightarrow> page outcome" where
  "initProjectCarousel p =
     (case project_carousel p of
        None \<Rightarrow> Normal p
      | Some c \<Rightarrow>
          Normal (add_listener CarouselHandlers (p\<lparr>project_carousel := Some (carousel_initial c)\<rparr>)))"

text \<open>
  The earlier copy of the script has no guard: it calls \<^verbatim>\<open>carousel.querySelectorAll\<close>
  on whatever \<^verbatim>\<open>document.querySelector('.project-carousel')\<close> returned.
\<close>

definition initProjectCarousel_unguarded :: "page \<Rightarrow> page outcome" where
  "initProjectCarousel_unguarded p =
     (case project_carousel p of
        None \<Rightarrow> Throws TypeError p
      | Some c \<Rightarrow> Normal (add_listener CarouselHandlers p))"

definition initMobileMenu :: "page \<Rightarrow> page outcome" where
  "initMobileMenu p =
     (case menu_expanded p of
        None \<Rightarrow> Normal p
      | Some a \<Rightarrow>
          if \<not> primary_nav_present p then Normal p
          else Normal ((add_listener MenuHandlers p)\<lparr>menu_expanded := Some (Some ''false'')\<rparr>))"

definition initScrollWatcher :: "page \<Rightarrow> page outcome" where
  "initScrollWatcher p = Normal (add_listener WindowScroll p)"

definition hookThemeToggle :: "page \<Rightarrow> page outcome" where
  "hookThemeToggle p =
     (case theme_toggle p of
        None \<Rightarrow> Normal p
      | Some btn \<Rightarrow> Normal (add_listener ThemeToggleClick p))"

definition activateFirst :: "page \<Rightarrow> page outcome" where
  "activateFirst p = Normal (p\<lparr>pg_doc := bootstrap (pg_doc p)\<rparr>)"

text \<open>The \<^verbatim>\<open>DOMContentLoaded\<close> listener; \<open>y\<close> is the current year.\<close>

definition onDOMContentLoaded :: "nat \<Rightarrow> page \<Rightarrow> page outcome" where
  "onDOMContentLoaded y p =
     and_then (Theme_init p) (\<lambda>p.
     and_then (initNavigation p) (\<lambda>p.
     and_then (initSectionObserver p) (\<lambda>p.
     and_then (initForm p) (\<lambda>p.
     and_then (setYear y p) (\<lambda>p.
     and_then (initProjectCarousel p) (\<lambda>p.
     and_then (initMobileMenu p) (\<lambda>p.
     and_then (initScrollWatcher p) (\<lambda>p.
     and_then (hookThemeToggle p) activateFirst))))))))"

section \<open>Sample pages\<close>

text \<open>Concrete pages on which the theorems below are instantiated.\<close>

definition sample_section :: "string \<Rightarrow> real \<Rightarrow> section_el" where
  "sample_section ident y =
     \<lparr>sec_id = ident, sec_classList = [''section''], aria_hidden = None,
      descendants =
        [\<lparr>el_classList = [''reveal''], transitionDelay = []\<rparr>,
         \<lparr>el_classList = [''lead''], transitionDelay = []\<rparr>,
         \<lparr>el_classList = [''glow-in'', ''is-visible''], transitionDelay = ''300ms''\<rparr>],
      rect_top = y, rect_height = 800\<rparr>"

definition sample_doc :: doc where
  "sample_doc =
     \<lparr>sections = [sample_section ''home'' 0, sample_section ''about'' 800,
                  sample_section ''contact'' 1600],
      nav_links = [\<lparr>href = ''#home'', aria_current = None\<rparr>,
                   \<lparr>href = ''#about'', aria_current = None\<rparr>,
                   \<lparr>href = ''#contact'', aria_current = Some ''page''\<rparr>],
      other_ids = [''contact-form'', ''year''],
      focusable_ids = [''about''],
      scroll_target = None, focused = None, innerHeight = 800\<rparr>"

definition sample_carousel :: carousel where
  "sample_carousel =
     \<lparr>scrollLeft = 450, clientWidth = 300,
      cards = [\<lparr>offsetLeft = 0, offsetWidth = 300, card_classList = [''project-card'']\<rparr>,
               \<lparr>offsetLeft = 300, offsetWidth = 300, card_classList = [''project-card'']\<rparr>,
               \<lparr>offsetLeft = 600, offsetWidth = 300, card_classList = [''project-card'']\<rparr>],
      indicators = [[''indicator''], [''indicator''], [''indicator'']],
      currentIndex = 0\<rparr>"

text \<open>An ASCII text as code units.\<close>

definition code_units :: "string \<Rightarrow> js_string" where
  "code_units t = map of_char t"

definition blank_field :: form_field where
  "blank_field = \<lparr>fvalue = [], fdefault = [], error_slot = Some [], aria_invalid = None\<rparr>"

definition blank_form :: form where
  "blank_form =
     \<lparr>name_field = Some blank_field,
      email_field = Some (blank_field\<lparr>fvalue := code_units ''ada@example.org''\<rparr>),
      message_field = Some (blank_field\<lparr>fvalue := code_units ''Hello''\<rparr>),
      form_status = Some []\<rparr>"

definition no_globals :: page_globals where
  "no_globals = \<lparr>carousel_global = None, cards_global = None\<rparr>"

definition sample_page :: page where
  "sample_page =
     \<lparr>pg_doc = sample_doc, data_theme = Some ''dark'',
      local_storage = \<lparr>access_denied = False, quota_exceeded = False, saved_theme = Some ''dark''\<rparr>,
      theme_toggle = Some \<lparr>aria_pressed = None, toggle_text = Some [], toggle_icon = Some []\<rparr>,
      contact_form = Some blank_form, year_el = Some [],
      project_carousel = Some sample_carousel,
      menu_expanded = Some None, primary_nav_present = True, listeners = []\<rparr>"

text \<open>The same page on a host that denies access to storage, or whose quota is used up.\<close>

definition denied_page :: page where
  "denied_page = sample_page\<lparr>local_storage := (local_storage sample_page)\<lparr>access_denied := True\<rparr>\<rparr>"


text \<open>The same page with the form's name field missing, and one with nothing optional.\<close>

definition nameless_page :: page where
  "nameless_page = sample_page\<lparr>contact_form := Some (blank_form\<lparr>name_field := None\<rparr>)\<rparr>"

definition bare_page :: page where
  "bare_page =
     sample_page\<lparr>theme_toggle := None, contact_form := None, year_el := None,
                  project_carousel := None, menu_expanded := None\<rparr>"

text \<open>
  Two sections whose computed distances to the middle of the viewport are equal, and a
  carousel with two such cards.
\<close>

definition tied_doc :: doc where
  "tied_doc =
     sample_doc\<lparr>sections := [sample_section ''home'' (-300), sample_section ''about'' 300]\<rparr>"

definition tied_carousel :: carousel where
  "tied_carousel =
     \<lparr>scrollLeft = 200, clientWidth = 300,
      cards = [\<lparr>offsetLeft = 50, offsetWidth = 300, card_classList = [''project-card'']\<rparr>,
               \<lparr>offsetLeft = 350, offsetWidth = 300, card_classList = [''project-card'']\<rparr>],
      indicators = [[''indicator''], [''indicator'']],
      currentIndex = 0\<rparr>"

text \<open>
  Layouts with fractional values. In the first the second section is nearer, by
  \<open>2 powi (-45)\<close>; in the second the two sections are equally near.
\<close>

definition sized_section :: "string \<Rightarrow> real \<Rightarrow> real \<Rightarrow> section_el" where
  "sized_section ident y h = (sample_section ident y)\<lparr>rect_height := h\<rparr>"

definition near_doc :: doc where
  "near_doc =
     sample_doc\<lparr>sections := [sized_section ''home'' (-3513 / 10) (2616 / 10),
                              sized_section ''about'' (6114 / 10) (4182 / 10)],
                 innerHeight := 600\<rparr>"

definition even_doc :: doc where
  "even_doc =
     sample_doc\<lparr>sections := [sized_section ''home'' (-8813 / 10) (6287 / 10),
                              sized_section ''about'' (10471 / 10) (8397 / 10)],
                 innerHeight := 900\<rparr>"

text \<open>The form after a failed submit, with the name typed in since.\<close>

definition filled_form :: form where
  "filled_form =
     \<lparr>name_field = Some (blank_field\<lparr>fvalue := code_units ''Ada'', error_slot := Some ''Please enter your name.'',
                           aria_invalid := Some ''true''\<rparr>),
      email_field = Some (blank_field\<lparr>fvalue := code_units ''ada@example.org'', aria_invalid := Some ''false''\<rparr>),
      message_field = Some (blank_field\<lparr>fvalue := code_units ''Hello'', aria_invalid := Some ''false''\<rparr>),
      form_status = Some ''Please fix the errors above.''\<rparr>"

text \<open>A page with no section and none of the optional elements.\<close>

definition empty_page :: page where
  "empty_page = bare_page\<lparr>pg_doc := sample_doc\<lparr>sections := []\<rparr>\<rparr>"

section \<open>Properties of activation\<close>

subsection \<open>Reveal targets\<close>

lemma sec_id_activate [simp]: "sec_id (activate ident s) = sec_id s"
  by (simp add: activate_def Let_def)

lemma length_stagger [simp]: "length (stagger i es) = length es"
  by (induction es arbitrary: i) auto

lemma target_reveal [simp]: "is_reveal_target (reveal i e) = is_reveal_target e"
  by (auto simp: is_reveal_target_def reveal_def classList_contains_def classList_add_def)

lemma visible_reveal [simp]: "is_visible (reveal i e)"
  by (auto simp: is_visible_def reveal_def classList_contains_def classList_add_def)

lemma target_conceal [simp]: "is_reveal_target (conceal e) = is_reveal_target e"
  by (auto simp: is_reveal_target_def conceal_def classList_contains_def classList_remove_def)

lemma visible_conceal [simp]: "\<not> is_visible (conceal e)"
  by (auto simp: is_visible_def conceal_def classList_contains_def classList_remove_def)

lemma delay_conceal [simp]: "transitionDelay (conceal e) = []"
  by (simp add: conceal_def)

lemma delay_reveal [simp]: "transitionDelay (reveal i e) = ms_delay i"
  by (simp add: reveal_def)

lemma filter_stagger:
  "filter is_reveal_target (stagger i es) =
     map (\<lambda>(k, e). reveal k e) (enumerate i (filter is_reveal_target es))"
  by (induction es arbitrary: i) auto

lemma hide_stagger:
  "hide_targets (stagger i es) =
     map (\<lambda>e. if is_reveal_target e then conceal (reveal 0 e) else e) es"
  apply (induction es arbitrary: i)
   apply (auto simp: hide_targets_def)
   apply (auto simp: conceal_def reveal_def)
  done

lemma reveal_reveal [simp]: "reveal i (reveal j e) = reveal i e"
  by (auto simp: reveal_def classList_add_def)

lemma stagger_idem: "stagger i (stagger i es) = stagger i es"
  by (induction es arbitrary: i) auto

lemma conceal_reveal_idem [simp]:
  "conceal (reveal i (conceal (reveal j e))) = conceal (reveal j e)"
  by (auto simp: conceal_def reveal_def classList_add_def classList_remove_def)

lemma activate_idem: "activate ident (activate ident s) = activate ident s"
  by (auto simp: activate_def Let_def hide_stagger stagger_idem classList_toggle_def
      classList_add_def classList_remove_def comp_def intro!: map_cong)

lemma findIndex_map: "findIndex P (map f xs) = findIndex (P \<circ> f) xs"
  by (induction xs) (auto simp: Let_def)

lemma updateNavCurrent_idem: "updateNavCurrent (updateNavCurrent d) = updateNavCurrent d"
  by (auto simp: updateNavCurrent_def Let_def getSections_def comp_def)

subsection \<open>Sections and navigation links after \<^verbatim>\<open>setActiveSection\<close>\<close>

lemma is_active_activate [simp]: "is_active (activate ident s) = (sec_id s = ident)"
  by (auto simp: activate_def Let_def is_active_def classList_contains_def classList_toggle_def
      classList_add_def classList_remove_def)

lemma aria_hidden_activate [simp]:
  "aria_hidden (activate ident s) = Some (if sec_id s = ident then ''false'' else ''true'')"
  by (simp add: activate_def Let_def)

lemma sections_setActiveSection [simp]:
  "sections (setActiveSection ident d) = map (activate ident) (sections d)"
  by (simp add: setActiveSection_def updateNavCurrent_def getSections_def Let_def)

lemma findIndex_range: "findIndex P xs < int (length xs) \<and> -1 \<le> findIndex P xs"
  by (induction xs) (auto simp: Let_def)

lemma findIndex_nonneg_iff: "0 \<le> findIndex P xs \<longleftrightarrow> (\<exists>x\<in>set xs. P x)"
  by (induction xs) (auto simp: Let_def)

lemma findIndex_holds: "0 \<le> findIndex P xs \<Longrightarrow> P (xs ! nat (findIndex P xs))"
  by (induction xs) (auto simp: Let_def nat_add_distrib split: if_splits)

lemma reveal_targets_active:
  "sec_id s = ident \<Longrightarrow>
     reveal_targets (activate ident s) =
       map (\<lambda>(k, e). reveal k e) (enumerate 0 (reveal_targets s))"
  by (simp add: activate_def Let_def reveal_targets_def filter_stagger)

lemma reveal_targets_inactive:
  "sec_id s \<noteq> ident \<Longrightarrow>
     reveal_targets (activate ident s) = map (\<lambda>e. conceal (reveal 0 e)) (reveal_targets s)"
  by (auto simp add: activate_def Let_def reveal_targets_def hide_stagger filter_map comp_def
      intro!: filter_cong map_cong)

lemma nav_setActiveSection:
  assumes "ident \<in> sec_id ` set (sections d)"
  shows "nav_links (setActiveSection ident d) =
     map (\<lambda>l. l\<lparr>aria_current := (if drop 1 (href l) = ident then Some ''page'' else None)\<rparr>) (nav_links d)"
proof -
  let ?secs = "map (activate ident) (sections d)"
  let ?k = "findIndex is_active ?secs"
  have ex: "\<exists>s\<in>set ?secs. is_active s" using assms by auto
  then have k0: "0 \<le> ?k" by (simp only: findIndex_nonneg_iff)
  have klt: "nat ?k < length ?secs" using findIndex_range[of is_active ?secs] k0 by linarith
  have "is_active (?secs ! nat ?k)" using findIndex_holds[OF k0] .
  then have "sec_id (?secs ! nat ?k) = ident" using klt
    by (simp add: sec_id_activate)
  then show ?thesis using k0
    by (auto simp add: setActiveSection_def updateNavCurrent_def getSections_def Let_def)
qed

lemma nav_setActiveSection_none:
  assumes "ident \<notin> sec_id ` set (sections d)"
  shows "nav_links (setActiveSection ident d) = map (\<lambda>l. l\<lparr>aria_current := None\<rparr>) (nav_links d)"
proof -
  let ?secs = "map (activate ident) (sections d)"
  have "\<not> (\<exists>s\<in>set ?secs. is_active s)" using assms by auto
  then have "\<not> 0 \<le> findIndex is_active ?secs"
    using findIndex_nonneg_iff[of is_active ?secs] by blast
  then show ?thesis
    by (auto simp add: setActiveSection_def updateNavCurrent_def getSections_def Let_def)
qed

lemma ms_delay_values: "ms_delay 0 = ''0ms'' \<and> ms_delay 1 = ''70ms'' \<and> ms_delay 2 = ''140ms''"
  by code_simp

subsection \<open>The effect of \<^verbatim>\<open>setActiveSection\<close>\<close>

text \<open>
  Claim C2. For an id that matches a section, after \<^verbatim>\<open>setActiveSection(id)\<close>: every
  section with that id carries \<^verbatim>\<open>active\<close> and \<^verbatim>\<open>aria-hidden="false"\<close>, and its \<open>i\<close>-th
  reveal target has the transition delay \<open>i \<times> 70\<close> ms and the class \<^verbatim>\<open>is-visible\<close>;
  every other section has lost \<^verbatim>\<open>active\<close>, has \<^verbatim>\<open>aria-hidden="true"\<close>, and none of its
  reveal targets is visible or has a delay; a navigation link has
  \<^verbatim>\<open>aria-current="page"\<close> exactly if its target is the id, and no \<^verbatim>\<open>aria-current\<close>
  otherwise. Ids, targets and links are neither added nor removed.
\<close>

theorem setActiveSection_effect:
  assumes "ident \<in> set (map sec_id (sections d))"
  shows "length (sections (setActiveSection ident d)) = length (sections d) \<and>
    (\<forall>j < length (sections d).
       sec_id (sections (setActiveSection ident d) ! j) = sec_id (sections d ! j) \<and>
       length (reveal_targets (sections (setActiveSection ident d) ! j)) =
         length (reveal_targets (sections d ! j)) \<and>
       (if sec_id (sections d ! j) = ident
        then is_active (sections (setActiveSection ident d) ! j) \<and>
             aria_hidden (sections (setActiveSection ident d) ! j) = Some ''false'' \<and>
             (\<forall>i < length (reveal_targets (sections d ! j)).
                transitionDelay (reveal_targets (sections (setActiveSection ident d) ! j) ! i)
                  = ms_delay i \<and>
                is_visible (reveal_targets (sections (setActiveSection ident d) ! j) ! i))
        else \<not> is_active (sections (setActiveSection ident d) ! j) \<and>
             aria_hidden (sections (setActiveSection ident d) ! j) = Some ''true'' \<and>
             (\<forall>e \<in> set (reveal_targets (sections (setActiveSection ident d) ! j)).
                \<not> is_visible e \<and> transitionDelay e = []))) \<and>
    length (nav_links (setActiveSection ident d)) = length (nav_links d) \<and>
    (\<forall>k < length (nav_links d).
       href (nav_links (setActiveSection ident d) ! k) = href (nav_links d ! k) \<and>
       aria_current (nav_links (setActiveSection ident d) ! k) =
         (if drop 1 (href (nav_links d ! k)) = ident then Some ''page'' else None))"
  (is "?len \<and> (\<forall>j < length (sections d). ?sec j) \<and> ?navlen \<and> ?nav")
proof -
  have len: ?len by simp
  have secs: "\<forall>j < length (sections d). ?sec j"
  proof (intro allI impI)
    fix j assume j: "j < length (sections d)"
    show "?sec j"
    proof (cases "sec_id (sections d ! j) = ident")
      case True
      then show ?thesis using j
        by (simp add: sec_id_activate reveal_targets_active nth_enumerate_eq)
    next
      case False
      then show ?thesis using j
        by (auto simp add: sec_id_activate reveal_targets_inactive)
    qed
  qed
  have eq: "nav_links (setActiveSection ident d) =
     map (\<lambda>l. l\<lparr>aria_current := (if drop 1 (href l) = ident then Some ''page'' else None)\<rparr>)
       (nav_links d)"
    using assms by (simp only: nav_setActiveSection set_map)
  have navlen: ?navlen by (simp add: eq)
  have nav: ?nav by (simp add: eq)
  from len secs navlen nav show ?thesis by blast
qed

theorem setActiveSection_effect_witness:
  "''about'' \<in> set (map sec_id (sections sample_doc)) \<and>
   map is_active (sections (setActiveSection ''about'' sample_doc)) = [False, True, False] \<and>
   map aria_hidden (sections (setActiveSection ''about'' sample_doc)) =
     [Some ''true'', Some ''false'', Some ''true''] \<and>
   map transitionDelay (reveal_targets (sections (setActiveSection ''about'' sample_doc) ! 1)) =
     [''0ms'', ''70ms''] \<and>
   map is_visible (reveal_targets (sections (setActiveSection ''about'' sample_doc) ! 1)) =
     [True, True] \<and>
   map transitionDelay (reveal_targets (sections (setActiveSection ''about'' sample_doc) ! 2)) =
     [[], []] \<and>
   map is_visible (reveal_targets (sections (setActiveSection ''about'' sample_doc) ! 2)) =
     [False, False] \<and>
   map aria_current (nav_links (setActiveSection ''about'' sample_doc)) =
     [None, Some ''page'', None]"
  using setActiveSection_effect [of "''about''" sample_doc] ms_delay_values
  by (simp add: sample_doc_def sample_section_def activate_def Let_def
      reveal_targets_def is_reveal_target_def classList_contains_def classList_toggle_def
      classList_add_def classList_remove_def is_active_def is_visible_def reveal_def
      hide_targets_def conceal_def nav_setActiveSection sec_id_activate)

text \<open>
  Claim C4. A second \<^verbatim>\<open>setActiveSection(id)\<close> right after the first leaves the whole
  document as the first call left it: active flags, \<^verbatim>\<open>aria-hidden\<close>, visibility flags,
  delays and \<^verbatim>\<open>aria-current\<close>. Activating the id that the first call made active is
  a no-op on the state.
\<close>

theorem setActiveSection_idempotent:
  "setActiveSection ident (setActiveSection ident d) = setActiveSection ident d"
  by (simp add: setActiveSection_def getSections_def updateNavCurrent_def Let_def comp_def
      activate_idem)

text \<open>
  Claim C10. For an id that matches no section, \<^verbatim>\<open>setActiveSection(id)\<close> leaves every
  section without \<^verbatim>\<open>active\<close> and with \<^verbatim>\<open>aria-hidden="true"\<close>: no section is active
  afterwards, whichever was before.
\<close>

theorem setActiveSection_none_active:
  assumes "ident \<notin> set (map sec_id (sections d))"
  shows "length (sections (setActiveSection ident d)) = length (sections d) \<and>
         (\<forall>s \<in> set (sections (setActiveSection ident d)).
            \<not> is_active s \<and> aria_hidden s = Some ''true'') \<and>
         active_count (setActiveSection ident d) = 0 \<and>
         getActiveIndex (setActiveSection ident d) = -1"
proof -
  have a: "\<forall>s \<in> set (sections (setActiveSection ident d)). \<not> is_active s \<and> aria_hidden s = Some ''true''"
    using assms by auto
  then have "filter is_active (sections (setActiveSection ident d)) = []"
    by (simp only: filter_empty_conv) blast
  then have c: "active_count (setActiveSection ident d) = 0"
    by (simp only: active_count_def list.size)
  have "\<not> 0 \<le> findIndex is_active (sections (setActiveSection ident d))"
    using a findIndex_nonneg_iff[of is_active "sections (setActiveSection ident d)"] by blast
  then have "getActiveIndex (setActiveSection ident d) = -1"
    using findIndex_range[of is_active "sections (setActiveSection ident d)"]
    by (simp add: getActiveIndex_def getSections_def)
  with a c show ?thesis by simp
qed

theorem setActiveSection_none_active_witness:
  "''missing'' \<notin> set (map sec_id (sections (bootstrap sample_doc))) \<and>
   active_count (bootstrap sample_doc) = 1 \<and>
   active_count (setActiveSection ''missing'' (bootstrap sample_doc)) = 0 \<and>
   map aria_hidden (sections (setActiveSection ''missing'' (bootstrap sample_doc))) =
     [Some ''true'', Some ''true'', Some ''true'']"
  using setActiveSection_none_active [of "''missing''" "bootstrap sample_doc"]
  by (simp add: bootstrap_def getSections_def sample_doc_def sample_section_def active_count_def
      sec_id_activate)

section \<open>Properties of nearest-element resolution\<close>

subsection \<open>The loop\<close>

lemma js_less_irrefl [simp]: "\<not> js_less x x"
  by (cases x) simp_all

lemma js_less_trans: "js_less x y \<Longrightarrow> js_less y z \<Longrightarrow> js_less x z"
  by (cases x; cases y; cases z) simp_all

lemma js_less_PosInf: "js_less x y \<Longrightarrow> js_less x PosInf"
  by (cases x; cases y) simp_all

lemma js_less_cotrans: "js_less y m \<Longrightarrow> \<not> js_less x m \<Longrightarrow> x \<noteq> NaN \<Longrightarrow> js_less y x"
  by (cases x; cases y; cases m) simp_all

lemma not_less_PosInf: "\<not> js_less z PosInf \<Longrightarrow> \<not> js_less z x"
  by (cases z; cases x) simp_all

lemma closest_scan_snoc:
  "closest_scan k (xs @ [x]) acc =
     (if js_less x (snd (closest_scan k xs acc)) then (k + length xs, x)
      else closest_scan k xs acc)"
  by (induction xs arbitrary: k acc) auto

text \<open>
  The state of the loop after any prefix: either nothing was below \<open>Infinity\<close> and the
  first element still stands, or the running minimum is the element at \<open>closest\<close>.
\<close>

lemma closest_scan_invariant:
  "(closest_scan 0 xs (0, PosInf) = (0, PosInf) \<and> (\<forall>j < length xs. \<not> js_less (xs ! j) PosInf)) \<or>
   (\<exists>i < length xs. closest_scan 0 xs (0, PosInf) = (i, xs ! i) \<and> js_less (xs ! i) PosInf \<and>
      (\<forall>j < length xs. \<not> js_less (xs ! j) (xs ! i)) \<and>
      (\<forall>j < i. xs ! j = NaN \<or> js_less (xs ! i) (xs ! j)))"
proof (induction xs rule: rev_induct)
  case Nil
  then show ?case by simp
next
  case (snoc x xs)
  from snoc.IH show ?case
  proof (elim disjE conjE exE)
    assume r: "closest_scan 0 xs (0, PosInf) = (0, PosInf)"
      and no: "\<forall>j < length xs. \<not> js_less (xs ! j) PosInf"
    show ?thesis
    proof (cases "js_less x PosInf")
      case True
      have "closest_scan 0 (xs @ [x]) (0, PosInf) = (length xs, x)"
        using True r by (simp add: closest_scan_snoc)
      moreover have "\<And>j. j < length xs \<Longrightarrow> \<not> js_less (xs ! j) x"
        using no not_less_PosInf by blast
      then have "\<forall>j < length (xs @ [x]). \<not> js_less ((xs @ [x]) ! j) x"
        by (auto simp: nth_append less_Suc_eq)
      moreover have "\<forall>j < length xs. (xs @ [x]) ! j = NaN \<or> js_less x ((xs @ [x]) ! j)"
        using no True by (auto simp: nth_append intro: js_less_cotrans)
      ultimately show ?thesis using True
        by (intro disjI2 exI[of _ "length xs"]) simp
    next
      case False
      have "closest_scan 0 (xs @ [x]) (0, PosInf) = (0, PosInf)"
        using False r by (simp add: closest_scan_snoc)
      moreover have "\<forall>j < length (xs @ [x]). \<not> js_less ((xs @ [x]) ! j) PosInf"
        using no False by (auto simp: nth_append less_Suc_eq)
      ultimately show ?thesis by blast
    qed
  next
    fix i assume i: "i < length xs"
      and r: "closest_scan 0 xs (0, PosInf) = (i, xs ! i)"
      and fin: "js_less (xs ! i) PosInf"
      and mn: "\<forall>j < length xs. \<not> js_less (xs ! j) (xs ! i)"
      and fs: "\<forall>j < i. xs ! j = NaN \<or> js_less (xs ! i) (xs ! j)"
    show ?thesis
    proof (cases "js_less x (xs ! i)")
      case True
      have "closest_scan 0 (xs @ [x]) (0, PosInf) = (length xs, x)"
        using True r by (simp add: closest_scan_snoc)
      moreover have "js_less x PosInf" using True by (rule js_less_PosInf)
      moreover have "\<forall>j < length (xs @ [x]). \<not> js_less ((xs @ [x]) ! j) x"
        using mn True by (auto simp: nth_append less_Suc_eq dest: js_less_trans)
      moreover have "\<forall>j < length xs. (xs @ [x]) ! j = NaN \<or> js_less x ((xs @ [x]) ! j)"
        using mn True by (auto simp: nth_append intro: js_less_cotrans)
      ultimately show ?thesis
        by (intro disjI2 exI[of _ "length xs"]) simp
    next
      case False
      have "closest_scan 0 (xs @ [x]) (0, PosInf) = (i, (xs @ [x]) ! i)"
        using False r i by (simp add: closest_scan_snoc nth_append)
      moreover have "js_less ((xs @ [x]) ! i) PosInf" using fin i by (simp add: nth_append)
      moreover have "\<forall>j < length (xs @ [x]). \<not> js_less ((xs @ [x]) ! j) ((xs @ [x]) ! i)"
        using mn False i by (auto simp: nth_append less_Suc_eq)
      moreover have "\<forall>j < i. (xs @ [x]) ! j = NaN \<or> js_less ((xs @ [x]) ! i) ((xs @ [x]) ! j)"
        using fs i by (auto simp: nth_append)
      ultimately show ?thesis using i
        by (intro disjI2 exI[of _ i]) simp
    qed
  qed
qed

lemma closest_scan_spec:
  assumes "xs \<noteq> []"
  shows "fst (closest_scan 0 xs (0, PosInf)) < length xs \<and>
     (\<forall>j < length xs. \<not> js_less (xs ! j) (xs ! fst (closest_scan 0 xs (0, PosInf)))) \<and>
     (\<forall>j < fst (closest_scan 0 xs (0, PosInf)).
        xs ! j = NaN \<or> js_less (xs ! fst (closest_scan 0 xs (0, PosInf))) (xs ! j))"
proof -
  from closest_scan_invariant[of xs] show ?thesis
  proof (elim disjE conjE exE)
    assume r: "closest_scan 0 xs (0, PosInf) = (0, PosInf)"
      and no: "\<forall>j < length xs. \<not> js_less (xs ! j) PosInf"
    have "\<forall>j < length xs. \<not> js_less (xs ! j) (xs ! 0)"
      using no by (simp add: not_less_PosInf)
    then show ?thesis using r assms by simp
  next
    fix i assume "i < length xs" "closest_scan 0 xs (0, PosInf) = (i, xs ! i)"
      "\<forall>j < length xs. \<not> js_less (xs ! j) (xs ! i)"
      "\<forall>j < i. xs ! j = NaN \<or> js_less (xs ! i) (xs ! j)"
    then show ?thesis by simp
  qed
qed

lemma section_dists_geometry:
  "map (section_dist v) secs =
     map (\<lambda>(t, h). js_abs (js_sub (js_add (round64 t) (js_half (round64 h))) v))
       (map (\<lambda>s. (rect_top s, rect_height s)) secs)"
  by (simp add: section_dist_def comp_def)

lemma card_dists_geometry:
  "map (card_dist v) cs =
     map (\<lambda>(l, w). js_abs (js_sub (js_add (round64 l) (js_half (round64 w))) v))
       (map (\<lambda>k. (offsetLeft k, offsetWidth k)) cs)"
  by (simp add: card_dist_def comp_def)

lemma chooseClosestSection_geometry:
  "section_geometry d' = section_geometry d \<Longrightarrow> chooseClosestSection d' = chooseClosestSection d"
  unfolding chooseClosestSection_def getSections_def Let_def section_dists_geometry
    viewport_center_def
  by (auto simp: section_geometry_def dest: arg_cong[where f=length])

lemma indexFromScroll_geometry:
  "carousel_geometry c' = carousel_geometry c \<Longrightarrow> indexFromScroll c' = indexFromScroll c"
  unfolding indexFromScroll_def Let_def card_dists_geometry carousel_center_def
  by (simp add: carousel_geometry_def)

lemma chooseClosestSection_spec:
  assumes "sections d \<noteq> []"
  shows "\<exists>i < length (sections d). chooseClosestSection d = Some i \<and>
     (\<forall>j < length (sections d).
        \<not> js_less (section_dist (viewport_center d) (sections d ! j))
                   (section_dist (viewport_center d) (sections d ! i))) \<and>
     (\<forall>j < i. section_dist (viewport_center d) (sections d ! j) = NaN \<or>
              js_less (section_dist (viewport_center d) (sections d ! i))
                      (section_dist (viewport_center d) (sections d ! j)))"
proof -
  let ?ds = "map (section_dist (viewport_center d)) (sections d)"
  let ?i = "fst (closest_scan 0 ?ds (0, PosInf))"
  have ne: "?ds \<noteq> []" using assms by simp
  note S = closest_scan_spec[OF ne]
  from S have i: "?i < length (sections d)" by simp
  from S have mn: "\<forall>j < length ?ds. \<not> js_less (?ds ! j) (?ds ! ?i)" by blast
  from S have fs: "\<forall>j < ?i. ?ds ! j = NaN \<or> js_less (?ds ! ?i) (?ds ! j)" by blast
  have c: "chooseClosestSection d = Some ?i"
    using assms by (simp add: chooseClosestSection_def getSections_def)
  have mn': "\<forall>j < length (sections d).
        \<not> js_less (section_dist (viewport_center d) (sections d ! j))
                   (section_dist (viewport_center d) (sections d ! ?i))"
    using mn i by simp
  have fs': "\<forall>j < ?i. section_dist (viewport_center d) (sections d ! j) = NaN \<or>
              js_less (section_dist (viewport_center d) (sections d ! ?i))
                      (section_dist (viewport_center d) (sections d ! j))"
    using fs i by simp
  from i c mn' fs' show ?thesis by blast
qed

lemma indexFromScroll_spec:
  assumes "cards c \<noteq> []"
  shows "indexFromScroll c < length (cards c) \<and>
     (\<forall>j < length (cards c).
        \<not> js_less (card_dist (carousel_center c) (cards c ! j))
                   (card_dist (carousel_center c) (cards c ! indexFromScroll c))) \<and>
     (\<forall>j < indexFromScroll c. card_dist (carousel_center c) (cards c ! j) = NaN \<or>
        js_less (card_dist (carousel_center c) (cards c ! indexFromScroll c))
                (card_dist (carousel_center c) (cards c ! j)))"
proof -
  let ?ds = "map (card_dist (carousel_center c)) (cards c)"
  have ne: "?ds \<noteq> []" using assms by simp
  have e: "indexFromScroll c = fst (closest_scan 0 ?ds (0, PosInf))"
    by (simp add: indexFromScroll_def)
  note S = closest_scan_spec[OF ne, folded e]
  from S have i: "indexFromScroll c < length (cards c)" by simp
  from S have mn: "\<forall>j < length ?ds. \<not> js_less (?ds ! j) (?ds ! indexFromScroll c)" by blast
  from S have fs: "\<forall>j < indexFromScroll c. ?ds ! j = NaN \<or> js_less (?ds ! indexFromScroll c) (?ds ! j)"
    by blast
  have mn': "\<forall>j < length (cards c).
        \<not> js_less (card_dist (carousel_center c) (cards c ! j))
                   (card_dist (carousel_center c) (cards c ! indexFromScroll c))"
    using mn i by simp
  have fs': "\<forall>j < indexFromScroll c. card_dist (carousel_center c) (cards c ! j) = NaN \<or>
        js_less (card_dist (carousel_center c) (cards c ! indexFromScroll c))
                (card_dist (carousel_center c) (cards c ! j))"
    using fs i by simp
  from i mn' fs' show ?thesis by blast
qed

lemma geometry_setActiveSection:
  "section_geometry (setActiveSection ident d) = section_geometry d"
  by (simp add: section_geometry_def setActiveSection_def updateNavCurrent_def getSections_def
      Let_def activate_def comp_def)

subsection \<open>Rounding at the sample layouts\<close>

text \<open>
  The doubles the sample layouts produce, step by step: the value read, its half, the
  centre, the difference to the reference point. Each is \<open>round64\<close> at an exact
  rational, evaluated from the exponent of the argument.
\<close>

lemma exp_search_eq:
  "e \<le> int n - 1022 \<Longrightarrow> - 1022 \<le> e \<Longrightarrow> 2 powi e \<le> a \<or> e = - 1022 \<Longrightarrow>
   a < 2 powi (e + 1) \<Longrightarrow> exp_search n a = e"
proof (induction n)
  case 0
  then show ?case by simp
next
  case (Suc n)
  show ?case
  proof (cases "e = int (Suc n) - 1022")
    case True
    then have "e \<noteq> - 1022" by simp
    with Suc.prems have "2 powi e \<le> a" by blast
    then show ?thesis using True by simp
  next
    case False
    then have le: "e \<le> int n - 1022" using Suc.prems(1) by simp
    then have "e + 1 \<le> int (Suc n) - 1022" by simp
    then have "(2::real) powi (e + 1) \<le> 2 powi (int (Suc n) - 1022)"
      by (intro power_int_increasing) simp_all
    then have "\<not> 2 powi (int (Suc n) - 1022) \<le> a" using Suc.prems(4) by linarith
    then show ?thesis using Suc.IH[OF le Suc.prems(2,3,4)] by simp
  qed
qed

lemma binade_eq:
  "- 1022 \<le> e \<Longrightarrow> e \<le> 1023 \<Longrightarrow> 2 powi e \<le> a \<or> e = - 1022 \<Longrightarrow> a < 2 powi (e + 1) \<Longrightarrow>
   binade a = e"
  unfolding binade_def by (rule exp_search_eq) simp_all

lemma round64_near_height: "round64 (600) = Num (600)"
proof -
  have b: "binade (600) = 9"
    by (rule binade_eq) simp_all
  have m: "round_even ((600) / 2 powi ((9) - 52)) = 5277655813324800"
    by (simp add: round_even_def Let_def power_int_minus)
  show ?thesis using b m by (simp add: round64_def Let_def power_int_minus)
qed

lemma round64_near_middle: "round64 ((600) / 2) = Num (300)"
proof -
  have b: "binade (300) = 8"
    by (rule binade_eq) simp_all
  have m: "round_even ((300) / 2 powi ((8) - 52)) = 5277655813324800"
    by (simp add: round_even_def Let_def power_int_minus)
  show ?thesis using b m by (simp add: round64_def Let_def power_int_minus)
qed

lemma round64_near0_top: "round64 (- 3513 / 10) = Num (- 6180134957403341 / 17592186044416)"
proof -
  have b: "binade (3513 / 10) = 8"
    by (rule binade_eq) simp_all
  have m: "round_even ((3513 / 10) / 2 powi ((8) - 52)) = 6180134957403341"
    by (simp add: round_even_def Let_def power_int_minus)
  show ?thesis using b m by (simp add: round64_def Let_def power_int_minus)
qed

lemma round64_near0_height: "round64 (1308 / 5) = Num (2301057934609613 / 8796093022208)"
proof -
  have b: "binade (1308 / 5) = 8"
    by (rule binade_eq) simp_all
  have m: "round_even ((1308 / 5) / 2 powi ((8) - 52)) = 4602115869219226"
    by (simp add: round_even_def Let_def power_int_minus)
  show ?thesis using b m by (simp add: round64_def Let_def power_int_minus)
qed

lemma round64_near0_half: "round64 ((2301057934609613 / 8796093022208) / 2) = Num (2301057934609613 / 17592186044416)"
proof -
  have b: "binade (2301057934609613 / 17592186044416) = 7"
    by (rule binade_eq) simp_all
  have m: "round_even ((2301057934609613 / 17592186044416) / 2 powi ((7) - 52)) = 4602115869219226"
    by (simp add: round_even_def Let_def power_int_minus)
  show ?thesis using b m by (simp add: round64_def Let_def power_int_minus)
qed

lemma round64_near0_center: "round64 ((- 6180134957403341 / 17592186044416) + (2301057934609613 / 17592186044416)) = Num (- 441 / 2)"
proof -
  have b: "binade (441 / 2) = 7"
    by (rule binade_eq) simp_all
  have m: "round_even ((441 / 2) / 2 powi ((7) - 52)) = 7758154045587456"
    by (simp add: round_even_def Let_def power_int_minus)
  show ?thesis using b m by (simp add: round64_def Let_def power_int_minus)
qed

lemma round64_near0_diff: "round64 ((- 441 / 2) + - (300)) = Num (- 1041 / 2)"
proof -
  have b: "binade (1041 / 2) = 9"
    by (rule binade_eq) simp_all
  have m: "round_even ((1041 / 2) / 2 powi ((9) - 52)) = 4578366418059264"
    by (simp add: round_even_def Let_def power_int_minus)
  show ?thesis using b m by (simp add: round64_def Let_def power_int_minus)
qed

lemma round64_near1_top: "round64 (3057 / 5) = Num (5377931273777971 / 8796093022208)"
proof -
  have b: "binade (3057 / 5) = 9"
    by (rule binade_eq) simp_all
  have m: "round_even ((3057 / 5) / 2 powi ((9) - 52)) = 5377931273777971"
    by (simp add: round_even_def Let_def power_int_minus)
  show ?thesis using b m by (simp add: round64_def Let_def power_int_minus)
qed

lemma round64_near1_height: "round64 (2091 / 5) = Num (7357052203774771 / 17592186044416)"
proof -
  have b: "binade (2091 / 5) = 8"
    by (rule binade_eq) simp_all
  have m: "round_even ((2091 / 5) / 2 powi ((8) - 52)) = 7357052203774771"
    by (simp add: round_even_def Let_def power_int_minus)
  show ?thesis using b m by (simp add: round64_def Let_def power_int_minus)
qed

lemma round64_near1_half: "round64 ((7357052203774771 / 17592186044416) / 2) = Num (7357052203774771 / 35184372088832)"
proof -
  have b: "binade (7357052203774771 / 35184372088832) = 7"
    by (rule binade_eq) simp_all
  have m: "round_even ((7357052203774771 / 35184372088832) / 2 powi ((7) - 52)) = 7357052203774771"
    by (simp add: round_even_def Let_def power_int_minus)
  show ?thesis using b m by (simp add: round64_def Let_def power_int_minus)
qed

lemma round64_near1_center: "round64 ((5377931273777971 / 8796093022208) + (7357052203774771 / 35184372088832)) = Num (1641 / 2)"
proof -
  have b: "binade (28868777298886655 / 35184372088832) = 9"
    by (rule binade_eq) simp_all
  have m: "round_even ((28868777298886655 / 35184372088832) / 2 powi ((9) - 52)) = 7217194324721664"
    by (simp add: round_even_def Let_def power_int_minus)
  show ?thesis using b m by (simp add: round64_def Let_def power_int_minus)
qed

lemma round64_near1_diff: "round64 ((1641 / 2) + - (300)) = Num (1041 / 2)"
proof -
  have b: "binade (1041 / 2) = 9"
    by (rule binade_eq) simp_all
  have m: "round_even ((1041 / 2) / 2 powi ((9) - 52)) = 4578366418059264"
    by (simp add: round_even_def Let_def power_int_minus)
  show ?thesis using b m by (simp add: round64_def Let_def power_int_minus)
qed

lemma near_dists:
  "map (section_dist (viewport_center near_doc)) (sections near_doc) = [Num (1041 / 2), Num (1041 / 2)]"
  using round64_near_height round64_near_middle round64_near0_top round64_near0_height round64_near0_half round64_near0_center round64_near0_diff round64_near1_top round64_near1_height round64_near1_half round64_near1_center round64_near1_diff
  by (simp add: near_doc_def sample_doc_def sized_section_def sample_section_def section_dist_def viewport_center_def js_sub_def Let_def)

lemma near_exact:
  "exact_section_dist near_doc (sections near_doc ! 0) = 1041 / 2"
  "exact_section_dist near_doc (sections near_doc ! 1) = 18313465672237055 / 35184372088832"
  using round64_near_height round64_near_middle round64_near0_top round64_near0_height round64_near0_half round64_near0_center round64_near0_diff round64_near1_top round64_near1_height round64_near1_half round64_near1_center round64_near1_diff
  by (simp_all add: near_doc_def sample_doc_def sized_section_def sample_section_def exact_section_dist_def)

lemma round64_even_height: "round64 (900) = Num (900)"
proof -
  have b: "binade (900) = 9"
    by (rule binade_eq) simp_all
  have m: "round_even ((900) / 2 powi ((9) - 52)) = 7916483719987200"
    by (simp add: round_even_def Let_def power_int_minus)
  show ?thesis using b m by (simp add: round64_def Let_def power_int_minus)
qed

lemma round64_even_middle: "round64 ((900) / 2) = Num (450)"
proof -
  have b: "binade (450) = 8"
    by (rule binade_eq) simp_all
  have m: "round_even ((450) / 2 powi ((8) - 52)) = 7916483719987200"
    by (simp add: round_even_def Let_def power_int_minus)
  show ?thesis using b m by (simp add: round64_def Let_def power_int_minus)
qed

lemma round64_even0_top: "round64 (- 8813 / 10) = Num (- 3875998390235955 / 4398046511104)"
proof -
  have b: "binade (8813 / 10) = 9"
    by (rule binade_eq) simp_all
  have m: "round_even ((8813 / 10) / 2 powi ((9) - 52)) = 7751996780471910"
    by (simp add: round_even_def Let_def power_int_minus)
  show ?thesis using b m by (simp add: round64_def Let_def power_int_minus)
qed

lemma round64_even0_height: "round64 (6287 / 10) = Num (2765051841531085 / 4398046511104)"
proof -
  have b: "binade (6287 / 10) = 9"
    by (rule binade_eq) simp_all
  have m: "round_even ((6287 / 10) / 2 powi ((9) - 52)) = 5530103683062170"
    by (simp add: round_even_def Let_def power_int_minus)
  show ?thesis using b m by (simp add: round64_def Let_def power_int_minus)
qed

lemma round64_even0_half: "round64 ((2765051841531085 / 4398046511104) / 2) = Num (2765051841531085 / 8796093022208)"
proof -
  have b: "binade (2765051841531085 / 8796093022208) = 8"
    by (rule binade_eq) simp_all
  have m: "round_even ((2765051841531085 / 8796093022208) / 2 powi ((8) - 52)) = 5530103683062170"
    by (simp add: round_even_def Let_def power_int_minus)
  show ?thesis using b m by (simp add: round64_def Let_def power_int_minus)
qed

lemma round64_even0_center: "round64 ((- 3875998390235955 / 4398046511104) + (2765051841531085 / 8796093022208)) = Num (- 4986944938940825 / 8796093022208)"
proof -
  have b: "binade (4986944938940825 / 8796093022208) = 9"
    by (rule binade_eq) simp_all
  have m: "round_even ((4986944938940825 / 8796093022208) / 2 powi ((9) - 52)) = 4986944938940825"
    by (simp add: round_even_def Let_def power_int_minus)
  show ?thesis using b m by (simp add: round64_def Let_def power_int_minus)
qed

lemma round64_even0_diff: "round64 ((- 4986944938940825 / 8796093022208) + - (450)) = Num (- 8945186798934425 / 8796093022208)"
proof -
  have b: "binade (8945186798934425 / 8796093022208) = 9"
    by (rule binade_eq) simp_all
  have m: "round_even ((8945186798934425 / 8796093022208) / 2 powi ((9) - 52)) = 8945186798934425"
    by (simp add: round_even_def Let_def power_int_minus)
  show ?thesis using b m by (simp add: round64_def Let_def power_int_minus)
qed

lemma round64_even1_top: "round64 (10471 / 10) = Num (2302597250888499 / 2199023255552)"
proof -
  have b: "binade (10471 / 10) = 10"
    by (rule binade_eq) simp_all
  have m: "round_even ((10471 / 10) / 2 powi ((10) - 52)) = 4605194501776998"
    by (simp add: round_even_def Let_def power_int_minus)
  show ?thesis using b m by (simp add: round64_def Let_def power_int_minus)
qed

lemma round64_even1_height: "round64 (8397 / 10) = Num (3693039655374029 / 4398046511104)"
proof -
  have b: "binade (8397 / 10) = 9"
    by (rule binade_eq) simp_all
  have m: "round_even ((8397 / 10) / 2 powi ((9) - 52)) = 7386079310748058"
    by (simp add: round_even_def Let_def power_int_minus)
  show ?thesis using b m by (simp add: round64_def Let_def power_int_minus)
qed

lemma round64_even1_half: "round64 ((3693039655374029 / 4398046511104) / 2) = Num (3693039655374029 / 8796093022208)"
proof -
  have b: "binade (3693039655374029 / 8796093022208) = 8"
    by (rule binade_eq) simp_all
  have m: "round_even ((3693039655374029 / 8796093022208) / 2 powi ((8) - 52)) = 7386079310748058"
    by (simp add: round_even_def Let_def power_int_minus)
  show ?thesis using b m by (simp add: round64_def Let_def power_int_minus)
qed

lemma round64_even1_center: "round64 ((2302597250888499 / 2199023255552) + (3693039655374029 / 8796093022208)) = Num (1612928582366003 / 1099511627776)"
proof -
  have b: "binade (12903428658928025 / 8796093022208) = 10"
    by (rule binade_eq) simp_all
  have m: "round_even ((12903428658928025 / 8796093022208) / 2 powi ((10) - 52)) = 6451714329464012"
    by (simp add: round_even_def Let_def power_int_minus)
  show ?thesis using b m by (simp add: round64_def Let_def power_int_minus)
qed

lemma round64_even1_diff: "round64 ((1612928582366003 / 1099511627776) + - (450)) = Num (1118148349866803 / 1099511627776)"
proof -
  have b: "binade (1118148349866803 / 1099511627776) = 9"
    by (rule binade_eq) simp_all
  have m: "round_even ((1118148349866803 / 1099511627776) / 2 powi ((9) - 52)) = 8945186798934424"
    by (simp add: round_even_def Let_def power_int_minus)
  show ?thesis using b m by (simp add: round64_def Let_def power_int_minus)
qed

lemma even_dists:
  "map (section_dist (viewport_center even_doc)) (sections even_doc) = [Num (8945186798934425 / 8796093022208), Num (1118148349866803 / 1099511627776)]"
  using round64_even_height round64_even_middle round64_even0_top round64_even0_height round64_even0_half round64_even0_center round64_even0_diff round64_even1_top round64_even1_height round64_even1_half round64_even1_center round64_even1_diff
  by (simp add: even_doc_def sample_doc_def sized_section_def sample_section_def section_dist_def viewport_center_def js_sub_def Let_def)

lemma even_exact:
  "exact_section_dist even_doc (sections even_doc ! 0) = 8945186798934425 / 8796093022208"
  "exact_section_dist even_doc (sections even_doc ! 1) = 8945186798934425 / 8796093022208"
  using round64_even_height round64_even_middle round64_even0_top round64_even0_height round64_even0_half round64_even0_center round64_even0_diff round64_even1_top round64_even1_height round64_even1_half round64_even1_center round64_even1_diff
  by (simp_all add: even_doc_def sample_doc_def sized_section_def sample_section_def exact_section_dist_def)

lemma round64_tied_height: "round64 (800) = Num (800)"
proof -
  have b: "binade (800) = 9"
    by (rule binade_eq) simp_all
  have m: "round_even ((800) / 2 powi ((9) - 52)) = 7036874417766400"
    by (simp add: round_even_def Let_def power_int_minus)
  show ?thesis using b m by (simp add: round64_def Let_def power_int_minus)
qed

lemma round64_tied_middle: "round64 ((800) / 2) = Num (400)"
proof -
  have b: "binade (400) = 8"
    by (rule binade_eq) simp_all
  have m: "round_even ((400) / 2 powi ((8) - 52)) = 7036874417766400"
    by (simp add: round_even_def Let_def power_int_minus)
  show ?thesis using b m by (simp add: round64_def Let_def power_int_minus)
qed

lemma round64_tied0_top: "round64 (- 300) = Num (- 300)"
proof -
  have b: "binade (300) = 8"
    by (rule binade_eq) simp_all
  have m: "round_even ((300) / 2 powi ((8) - 52)) = 5277655813324800"
    by (simp add: round_even_def Let_def power_int_minus)
  show ?thesis using b m by (simp add: round64_def Let_def power_int_minus)
qed

lemma round64_tied0_height: "round64 (800) = Num (800)"
proof -
  have b: "binade (800) = 9"
    by (rule binade_eq) simp_all
  have m: "round_even ((800) / 2 powi ((9) - 52)) = 7036874417766400"
    by (simp add: round_even_def Let_def power_int_minus)
  show ?thesis using b m by (simp add: round64_def Let_def power_int_minus)
qed

lemma round64_tied0_half: "round64 ((800) / 2) = Num (400)"
proof -
  have b: "binade (400) = 8"
    by (rule binade_eq) simp_all
  have m: "round_even ((400) / 2 powi ((8) - 52)) = 7036874417766400"
    by (simp add: round_even_def Let_def power_int_minus)
  show ?thesis using b m by (simp add: round64_def Let_def power_int_minus)
qed

lemma round64_tied0_center: "round64 ((- 300) + (400)) = Num (100)"
proof -
  have b: "binade (100) = 6"
    by (rule binade_eq) simp_all
  have m: "round_even ((100) / 2 powi ((6) - 52)) = 7036874417766400"
    by (simp add: round_even_def Let_def power_int_minus)
  show ?thesis using b m by (simp add: round64_def Let_def power_int_minus)
qed

lemma round64_tied0_diff: "round64 ((100) + - (400)) = Num (- 300)"
proof -
  have b: "binade (300) = 8"
    by (rule binade_eq) simp_all
  have m: "round_even ((300) / 2 powi ((8) - 52)) = 5277655813324800"
    by (simp add: round_even_def Let_def power_int_minus)
  show ?thesis using b m by (simp add: round64_def Let_def power_int_minus)
qed

lemma round64_tied1_top: "round64 (300) = Num (300)"
proof -
  have b: "binade (300) = 8"
    by (rule binade_eq) simp_all
  have m: "round_even ((300) / 2 powi ((8) - 52)) = 5277655813324800"
    by (simp add: round_even_def Let_def power_int_minus)
  show ?thesis using b m by (simp add: round64_def Let_def power_int_minus)
qed

lemma round64_tied1_height: "round64 (800) = Num (800)"
proof -
  have b: "binade (800) = 9"
    by (rule binade_eq) simp_all
  have m: "round_even ((800) / 2 powi ((9) - 52)) = 7036874417766400"
    by (simp add: round_even_def Let_def power_int_minus)
  show ?thesis using b m by (simp add: round64_def Let_def power_int_minus)
qed

lemma round64_tied1_half: "round64 ((800) / 2) = Num (400)"
proof -
  have b: "binade (400) = 8"
    by (rule binade_eq) simp_all
  have m: "round_even ((400) / 2 powi ((8) - 52)) = 7036874417766400"
    by (simp add: round_even_def Let_def power_int_minus)
  show ?thesis using b m by (simp add: round64_def Let_def power_int_minus)
qed

lemma round64_tied1_center: "round64 ((300) + (400)) = Num (700)"
proof -
  have b: "binade (700) = 9"
    by (rule binade_eq) simp_all
  have m: "round_even ((700) / 2 powi ((9) - 52)) = 6157265115545600"
    by (simp add: round_even_def Let_def power_int_minus)
  show ?thesis using b m by (simp add: round64_def Let_def power_int_minus)
qed

lemma round64_tied1_diff: "round64 ((700) + - (400)) = Num (300)"
proof -
  have b: "binade (300) = 8"
    by (rule binade_eq) simp_all
  have m: "round_even ((300) / 2 powi ((8) - 52)) = 5277655813324800"
    by (simp add: round_even_def Let_def power_int_minus)
  show ?thesis using b m by (simp add: round64_def Let_def power_int_minus)
qed

lemma tied_dists:
  "map (section_dist (viewport_center tied_doc)) (sections tied_doc) = [Num (300), Num (300)]"
  using round64_tied_height round64_tied_middle round64_tied0_top round64_tied0_height round64_tied0_half round64_tied0_center round64_tied0_diff round64_tied1_top round64_tied1_height round64_tied1_half round64_tied1_center round64_tied1_diff
  by (simp add: tied_doc_def sample_doc_def sized_section_def sample_section_def section_dist_def viewport_center_def js_sub_def Let_def)

lemma tied_exact:
  "exact_section_dist tied_doc (sections tied_doc ! 0) = 300"
  "exact_section_dist tied_doc (sections tied_doc ! 1) = 300"
  using round64_tied_height round64_tied_middle round64_tied0_top round64_tied0_height round64_tied0_half round64_tied0_center round64_tied0_diff round64_tied1_top round64_tied1_height round64_tied1_half round64_tied1_center round64_tied1_diff
  by (simp_all add: tied_doc_def sample_doc_def sized_section_def sample_section_def exact_section_dist_def)

lemma round64_car_scroll: "round64 (200) = Num (200)"
proof -
  have b: "binade (200) = 7"
    by (rule binade_eq) simp_all
  have m: "round_even ((200) / 2 powi ((7) - 52)) = 7036874417766400"
    by (simp add: round_even_def Let_def power_int_minus)
  show ?thesis using b m by (simp add: round64_def Let_def power_int_minus)
qed

lemma round64_car_width: "round64 (300) = Num (300)"
proof -
  have b: "binade (300) = 8"
    by (rule binade_eq) simp_all
  have m: "round_even ((300) / 2 powi ((8) - 52)) = 5277655813324800"
    by (simp add: round_even_def Let_def power_int_minus)
  show ?thesis using b m by (simp add: round64_def Let_def power_int_minus)
qed

lemma round64_car_half: "round64 (300 / 2) = Num (150)"
proof -
  have b: "binade (150) = 7"
    by (rule binade_eq) simp_all
  have m: "round_even ((150) / 2 powi ((7) - 52)) = 5277655813324800"
    by (simp add: round_even_def Let_def power_int_minus)
  show ?thesis using b m by (simp add: round64_def Let_def power_int_minus)
qed

lemma round64_car_center: "round64 (200 + 150) = Num (350)"
proof -
  have b: "binade (350) = 8"
    by (rule binade_eq) simp_all
  have m: "round_even ((350) / 2 powi ((8) - 52)) = 6157265115545600"
    by (simp add: round_even_def Let_def power_int_minus)
  show ?thesis using b m by (simp add: round64_def Let_def power_int_minus)
qed

lemma round64_car_left0: "round64 (50) = Num (50)"
proof -
  have b: "binade (50) = 5"
    by (rule binade_eq) simp_all
  have m: "round_even ((50) / 2 powi ((5) - 52)) = 7036874417766400"
    by (simp add: round_even_def Let_def power_int_minus)
  show ?thesis using b m by (simp add: round64_def Let_def power_int_minus)
qed

lemma round64_car_left1: "round64 (350) = Num (350)"
proof -
  have b: "binade (350) = 8"
    by (rule binade_eq) simp_all
  have m: "round_even ((350) / 2 powi ((8) - 52)) = 6157265115545600"
    by (simp add: round_even_def Let_def power_int_minus)
  show ?thesis using b m by (simp add: round64_def Let_def power_int_minus)
qed

lemma round64_car_mid0: "round64 (50 + 150) = Num (200)"
proof -
  have b: "binade (200) = 7"
    by (rule binade_eq) simp_all
  have m: "round_even ((200) / 2 powi ((7) - 52)) = 7036874417766400"
    by (simp add: round_even_def Let_def power_int_minus)
  show ?thesis using b m by (simp add: round64_def Let_def power_int_minus)
qed

lemma round64_car_mid1: "round64 (350 + 150) = Num (500)"
proof -
  have b: "binade (500) = 8"
    by (rule binade_eq) simp_all
  have m: "round_even ((500) / 2 powi ((8) - 52)) = 8796093022208000"
    by (simp add: round_even_def Let_def power_int_minus)
  show ?thesis using b m by (simp add: round64_def Let_def power_int_minus)
qed

lemma round64_car_diff0: "round64 (200 + - 350) = Num (- 150)"
proof -
  have b: "binade (150) = 7"
    by (rule binade_eq) simp_all
  have m: "round_even ((150) / 2 powi ((7) - 52)) = 5277655813324800"
    by (simp add: round_even_def Let_def power_int_minus)
  show ?thesis using b m by (simp add: round64_def Let_def power_int_minus)
qed

lemma round64_car_diff1: "round64 (500 + - 350) = Num (150)"
proof -
  have b: "binade (150) = 7"
    by (rule binade_eq) simp_all
  have m: "round_even ((150) / 2 powi ((7) - 52)) = 5277655813324800"
    by (simp add: round_even_def Let_def power_int_minus)
  show ?thesis using b m by (simp add: round64_def Let_def power_int_minus)
qed

lemma car_dists:
  "map (card_dist (carousel_center tied_carousel)) (cards tied_carousel) = [Num 150, Num 150]"
  using round64_car_scroll round64_car_width round64_car_half round64_car_center round64_car_left0 round64_car_left1 round64_car_mid0 round64_car_mid1 round64_car_diff0 round64_car_diff1
  by (simp add: tied_carousel_def card_dist_def carousel_center_def js_sub_def Let_def)

subsection \<open>What the resolvers return\<close>

text \<open>
  Claim C3, as the code has it. For a non-empty list of sections (of cards), the
  resolver returns an element of the list such that no element has a smaller distance
  as the script computes it, in double arithmetic, from its centre to the reference
  point (the middle of the viewport, the centre of the carousel); every element before
  it in document order has a greater computed distance (or NaN), so among equal
  computed distances the earliest element wins; and the result depends on the geometry
  alone, so a repeated call with unchanged geometry returns the same element.
\<close>

theorem nearest_element_resolution:
  assumes "sections d \<noteq> []" and "cards c \<noteq> []"
  shows "(\<exists>i < length (sections d). chooseClosestSection d = Some i \<and>
            (\<forall>j < length (sections d).
               \<not> js_less (section_dist (viewport_center d) (sections d ! j))
                          (section_dist (viewport_center d) (sections d ! i))) \<and>
            (\<forall>j < i. section_dist (viewport_center d) (sections d ! j) = NaN \<or>
                     js_less (section_dist (viewport_center d) (sections d ! i))
                             (section_dist (viewport_center d) (sections d ! j)))) \<and>
         (indexFromScroll c < length (cards c) \<and>
            (\<forall>j < length (cards c).
               \<not> js_less (card_dist (carousel_center c) (cards c ! j))
                          (card_dist (carousel_center c) (cards c ! indexFromScroll c))) \<and>
            (\<forall>j < indexFromScroll c. card_dist (carousel_center c) (cards c ! j) = NaN \<or>
               js_less (card_dist (carousel_center c) (cards c ! indexFromScroll c))
                       (card_dist (carousel_center c) (cards c ! j)))) \<and>
         (\<forall>d'. section_geometry d' = section_geometry d \<longrightarrow>
               chooseClosestSection d' = chooseClosestSection d) \<and>
         (\<forall>c'. carousel_geometry c' = carousel_geometry c \<longrightarrow>
               indexFromScroll c' = indexFromScroll c)"
  using chooseClosestSection_spec[OF assms(1)] indexFromScroll_spec[OF assms(2)]
    chooseClosestSection_geometry[of _ d] indexFromScroll_geometry[of _ c]
  by blast

theorem nearest_element_resolution_witness:
  "sections tied_doc \<noteq> [] \<and> cards tied_carousel \<noteq> [] \<and>
   map (section_dist (viewport_center tied_doc)) (sections tied_doc) = [Num 300, Num 300] \<and>
   chooseClosestSection tied_doc = Some 0 \<and>
   map (card_dist (carousel_center tied_carousel)) (cards tied_carousel) = [Num 150, Num 150] \<and>
   indexFromScroll tied_carousel = 0 \<and>
   chooseClosestSection (setActiveSection ''about'' tied_doc) = chooseClosestSection tied_doc"
proof -
  have ne: "sections tied_doc \<noteq> []" "cards tied_carousel \<noteq> []"
    by (simp_all add: tied_doc_def tied_carousel_def)
  have c0: "chooseClosestSection tied_doc = Some 0"
    using ne(1) by (simp add: chooseClosestSection_def getSections_def Let_def tied_dists)
  have i0: "indexFromScroll tied_carousel = 0"
    by (simp add: indexFromScroll_def car_dists)
  from nearest_element_resolution[OF ne]
  have "chooseClosestSection (setActiveSection ''about'' tied_doc) = chooseClosestSection tied_doc"
    using geometry_setActiveSection[of "''about''" tied_doc] by blast
  with ne tied_dists car_dists c0 i0 show ?thesis by blast
qed

text \<open>
  The computed distance is not the distance: with tops \<open>-351.3\<close> and \<open>611.4\<close>, heights
  \<open>261.6\<close> and \<open>418.2\<close> and a viewport of \<open>600\<close> the second section is nearer, the two
  computed distances are both \<open>520.5\<close>, and the first section is returned; with tops
  \<open>-881.3\<close> and \<open>1047.1\<close>, heights \<open>628.7\<close> and \<open>839.7\<close> and a viewport of \<open>900\<close> the
  sections are equally near, and the second is returned.
\<close>

theorem rounding_changes_nearest:
  "chooseClosestSection near_doc = Some 0 \<and>
   exact_section_dist near_doc (sections near_doc ! 1)
     < exact_section_dist near_doc (sections near_doc ! 0) \<and>
   chooseClosestSection even_doc = Some 1 \<and>
   exact_section_dist even_doc (sections even_doc ! 0)
     = exact_section_dist even_doc (sections even_doc ! 1)"
proof -
  have n: "sections near_doc \<noteq> []" "length (sections near_doc) = 2"
    and e: "sections even_doc \<noteq> []" "length (sections even_doc) = 2"
    by (simp_all add: near_doc_def even_doc_def)
  have c0: "chooseClosestSection near_doc = Some 0"
    using n(1) by (simp add: chooseClosestSection_def getSections_def Let_def near_dists)
  have c1: "chooseClosestSection even_doc = Some 1"
    using e(1) by (simp add: chooseClosestSection_def getSections_def Let_def even_dists)
  have xn: "exact_section_dist near_doc (sections near_doc ! 1)
      < exact_section_dist near_doc (sections near_doc ! 0)"
    by (simp only: near_exact)
  have xe: "exact_section_dist even_doc (sections even_doc ! 0)
      = exact_section_dist even_doc (sections even_doc ! 1)"
    by (simp only: even_exact)
  from c0 xn c1 xe show ?thesis by blast
qed

section \<open>The single active section\<close>

lemma map_sec_id_activate [simp]: "map sec_id (map (activate ident) xs) = map sec_id xs"
  by simp

lemma other_ids_setActiveSection [simp]: "other_ids (setActiveSection ident d) = other_ids d"
  by (simp add: setActiveSection_def updateNavCurrent_def Let_def)

lemma count_matching:
  "distinct (map f xs) \<Longrightarrow> a \<in> set (map f xs) \<Longrightarrow> length (filter (\<lambda>x. f x = a) xs) = 1"
proof (induction xs)
  case Nil
  then show ?case by simp
next
  case (Cons x xs)
  show ?case
  proof (cases "f x = a")
    case True
    have "f x \<notin> f ` set xs" using Cons.prems(1) by simp
    then have "\<forall>y \<in> set xs. f y \<noteq> a" using True by blast
    then have "filter (\<lambda>x. f x = a) xs = []" by (simp add: filter_empty_conv)
    with True show ?thesis by simp
  next
    case False
    with Cons show ?thesis by auto
  qed
qed

lemma active_count_setActiveSection:
  assumes "distinct (map sec_id (sections d))" and "ident \<in> set (map sec_id (sections d))"
  shows "active_count (setActiveSection ident d) = 1"
proof -
  have "filter is_active (map (activate ident) (sections d)) =
        map (activate ident) (filter (\<lambda>s. sec_id s = ident) (sections d))"
    by (simp add: filter_map comp_def)
  then show ?thesis using count_matching[OF assms]
    by (simp add: active_count_def)
qed

lemma navigateToSection_cases:
  "navigateToSection ident d = d \<or>
   (ident \<noteq> [] \<and> (ident \<in> set (map sec_id (sections d)) \<or> ident \<in> set (other_ids d)) \<and>
    navigateToSection ident d = setActiveSection ident (focus_el ident (scrollIntoView ident d)))"
  by (auto simp: navigateToSection_def getElementById_def)

lemma sections_focus_scroll [simp]:
  "sections (focus_el a (scrollIntoView b d)) = sections d"
  "other_ids (focus_el a (scrollIntoView b d)) = other_ids d"
  "nav_links (focus_el a (scrollIntoView b d)) = nav_links d"
  by (simp_all add: focus_el_def scrollIntoView_def)

lemma navigate_section_id:
  assumes "distinct (map sec_id (sections d))" and "ident \<in> set (map sec_id (sections d))"
    and "ident \<noteq> []"
  shows "sections (navigateToSection ident d) = map (activate ident) (sections d)"
  using assms by (simp add: navigateToSection_def getElementById_def)

lemma navigate_keeps_single:
  assumes "distinct (map sec_id (sections d))" and "active_count d = 1"
    and "ident \<in> set (map sec_id (sections d)) \<or> ident \<notin> set (other_ids d)"
  shows "map sec_id (sections (navigateToSection ident d)) = map sec_id (sections d) \<and>
         other_ids (navigateToSection ident d) = other_ids d \<and>
         active_count (navigateToSection ident d) = 1"
proof -
  consider (same) "navigateToSection ident d = d"
    | (act) "ident \<in> set (map sec_id (sections d))"
        "navigateToSection ident d = setActiveSection ident (focus_el ident (scrollIntoView ident d))"
    using navigateToSection_cases[of ident d] assms(3) by blast
  then show ?thesis
  proof cases
    case same
    then show ?thesis using assms by simp
  next
    case act
    have "active_count (setActiveSection ident (focus_el ident (scrollIntoView ident d))) = 1"
      by (rule active_count_setActiveSection) (use assms act in simp_all)
    then show ?thesis using act by simp
  qed
qed

lemma findIndex_nth: "0 \<le> findIndex P xs \<Longrightarrow> nat (findIndex P xs) < length xs"
  using findIndex_range[of P xs] by linarith

lemma keydown_keeps_single:
  assumes "distinct (map sec_id (sections d))" and "active_count d = 1"
  shows "map sec_id (sections (keydown key d)) = map sec_id (sections d) \<and>
         other_ids (keydown key d) = other_ids d \<and>
         active_count (keydown key d) = 1"
proof -
  have nxt: "getActiveIndex d < int (length (sections d)) - 1 \<Longrightarrow>
     sec_id (sections d ! nat (getActiveIndex d + 1)) \<in> set (map sec_id (sections d))"
    using findIndex_range[of is_active "sections d"]
    by (simp add: getActiveIndex_def getSections_def)
  have prv: "getActiveIndex d > 0 \<Longrightarrow>
     sec_id (sections d ! nat (getActiveIndex d - 1)) \<in> set (map sec_id (sections d))"
    using findIndex_range[of is_active "sections d"]
    by (simp add: getActiveIndex_def getSections_def)
  show ?thesis
    using assms nxt prv navigate_keeps_single[OF assms]
    by (simp add: keydown_def goToNextSection_def goToPrevSection_def Let_def getSections_def)
qed

lemma relayout_keeps:
  "map sec_id (sections (relayout rs h d)) = map sec_id (sections d)"
  "map is_active (sections (relayout rs h d)) = map is_active (sections d)"
  "other_ids (relayout rs h d) = other_ids d"
proof -
  have "map sec_id (sections (relayout rs h d)) = map (sec_id \<circ> snd) (enumerate 0 (sections d))"
    by (auto simp: relayout_def comp_def split_def)
  then show "map sec_id (sections (relayout rs h d)) = map sec_id (sections d)"
    by (simp add: map_map[symmetric] del: map_map)
  have "map is_active (sections (relayout rs h d)) = map (is_active \<circ> snd) (enumerate 0 (sections d))"
    by (auto simp: relayout_def comp_def split_def is_active_def)
  then show "map is_active (sections (relayout rs h d)) = map is_active (sections d)"
    by (simp add: map_map[symmetric] del: map_map)
  show "other_ids (relayout rs h d) = other_ids d" by (simp add: relayout_def)
qed

lemma active_count_flags: "active_count d = length (filter (\<lambda>b. b) (map is_active (sections d)))"
  by (simp add: active_count_def filter_map comp_def)

lemma scroll_settled_keeps_single:
  assumes "distinct (map sec_id (sections d))" and "active_count d = 1"
  shows "map sec_id (sections (scroll_settled d)) = map sec_id (sections d) \<and>
         other_ids (scroll_settled d) = other_ids d \<and>
         active_count (scroll_settled d) = 1"
proof (cases "sections d = []")
  case True
  then show ?thesis using assms by (simp add: scroll_settled_def chooseClosestSection_def getSections_def)
next
  case False
  from chooseClosestSection_spec[OF this] obtain i where
    i: "i < length (sections d)" and c: "chooseClosestSection d = Some i" by blast
  have "sec_id (sections d ! i) \<in> set (map sec_id (sections d))" using i by simp
  from active_count_setActiveSection[OF assms(1) this] show ?thesis
    using c by (simp add: scroll_settled_def getSections_def)
qed

lemma handle_keeps_single:
  assumes "distinct (map sec_id (sections x))" and "active_count x = 1"
    and "through_controller d e"
    and "map sec_id (sections x) = map sec_id (sections d)" and "other_ids x = other_ids d"
  shows "map sec_id (sections (handle e x)) = map sec_id (sections d) \<and>
         other_ids (handle e x) = other_ids d \<and> active_count (handle e x) = 1"
proof (cases e)
  case (ObserverCallback entries)
  then show ?thesis using assms by simp
next
  case (Layout rs h)
  then show ?thesis using assms by (simp add: relayout_keeps active_count_flags)
next
  case ScrollSettled
  then show ?thesis using scroll_settled_keeps_single[OF assms(1,2)] assms by simp
next
  case (Navigate ident)
  then have "ident \<in> set (map sec_id (sections x)) \<or> ident \<notin> set (other_ids x)"
    using assms by simp
  from navigate_keeps_single[OF assms(1,2) this] show ?thesis using Navigate assms by simp
next
  case (KeyDown key)
  then show ?thesis using keydown_keeps_single[OF assms(1,2)] assms by simp
qed

lemma run_keeps_single:
  assumes "distinct (map sec_id (sections d))"
  shows "\<forall>e \<in> set es. through_controller d e \<Longrightarrow> active_count x = 1 \<Longrightarrow>
    map sec_id (sections x) = map sec_id (sections d) \<Longrightarrow> other_ids x = other_ids d \<Longrightarrow>
    active_count (run_events es x) = 1"
proof (induction es arbitrary: x)
  case Nil
  then show ?case by (simp add: run_events_def)
next
  case (Cons e es)
  have dx: "distinct (map sec_id (sections x))" using assms Cons.prems by simp
  have "through_controller d e" using Cons.prems by simp
  from handle_keeps_single[OF dx Cons.prems(2) this Cons.prems(3,4)]
  have "active_count (run_events es (handle e x)) = 1"
    using Cons.IH[of "handle e x"] Cons.prems(1) by simp
  then show ?case by (simp add: run_events_def)
qed

lemma bootstrap_single:
  assumes "sections d \<noteq> []" and "distinct (map sec_id (sections d))"
  shows "active_count (bootstrap d) = 1 \<and> map sec_id (sections (bootstrap d)) = map sec_id (sections d)
    \<and> other_ids (bootstrap d) = other_ids d"
proof -
  obtain s r where sr: "sections d = s # r" using assms(1) by (cases "sections d") auto
  then have "sec_id s \<in> set (map sec_id (sections d))" by simp
  from active_count_setActiveSection[OF assms(2) this] show ?thesis
    using sr by (simp add: bootstrap_def getSections_def)
qed

lemma flags_setActiveSection:
  "map is_active (sections (setActiveSection ident d)) = map (\<lambda>s. sec_id s = ident) (sections d)"
  by simp

lemma ids_setActiveSection:
  "map sec_id (sections (setActiveSection ident d)) = map sec_id (sections d)"
  by simp

lemma flags_observe_entry:
  "map is_active (sections (observe_entry (i, r) d)) =
     (if i < length (sections d) then (map is_active (sections d))[i := (r > 0.5)]
      else map is_active (sections d))"
  by (auto simp: observe_entry_def Let_def updateNavCurrent_def map_update is_active_def
      classList_contains_def classList_add_def classList_remove_def)

lemma sample_ids: "map sec_id (sections sample_doc) = [''home'', ''about'', ''contact'']"
  by (simp add: sample_doc_def sample_section_def)

lemma flags_bootstrap_sample:
  "map is_active (sections (bootstrap sample_doc)) = [True, False, False]"
  by (simp add: bootstrap_def getSections_def sample_doc_def sample_section_def)

lemma map_update_same: "i < length xs \<Longrightarrow> (map f xs)[i := f (xs ! i)] = map f xs"
  by (simp add: list_eq_iff_nth_eq nth_list_update)

lemma ids_observe_entry:
  "map sec_id (sections (observe_entry entry x)) = map sec_id (sections x) \<and>
   other_ids (observe_entry entry x) = other_ids x"
  by (simp add: observe_entry_def Let_def updateNavCurrent_def map_update map_update_same)

lemma ids_observer_callback:
  "map sec_id (sections (observer_callback entries x)) = map sec_id (sections x) \<and>
   other_ids (observer_callback entries x) = other_ids x"
  unfolding observer_callback_def
  by (induction entries arbitrary: x) (simp_all add: ids_observe_entry)

lemma ids_navigateToSection:
  "map sec_id (sections (navigateToSection ident x)) = map sec_id (sections x) \<and>
   other_ids (navigateToSection ident x) = other_ids x"
  using navigateToSection_cases[of ident x] by (elim disjE conjE) simp_all

lemma ids_handle:
  "map sec_id (sections (handle e x)) = map sec_id (sections x) \<and>
   other_ids (handle e x) = other_ids x"
proof (cases e)
  case (ObserverCallback entries)
  then show ?thesis by (simp add: ids_observer_callback)
next
  case (Layout rs h)
  then show ?thesis by (simp add: relayout_keeps)
next
  case ScrollSettled
  then show ?thesis by (simp add: scroll_settled_def split: option.splits)
next
  case (Navigate ident)
  then show ?thesis by (simp add: ids_navigateToSection)
next
  case (KeyDown key)
  then show ?thesis
    by (simp add: keydown_def goToNextSection_def goToPrevSection_def Let_def
        ids_navigateToSection)
qed

lemma ids_run_events:
  "map sec_id (sections (run_events es x)) = map sec_id (sections x) \<and>
   other_ids (run_events es x) = other_ids x"
  unfolding run_events_def by (induction es arbitrary: x) (simp_all add: ids_handle)

lemma run_events_append:
  "run_events (before @ e # after) x = run_events after (handle e (run_events before x))"
  by (simp add: run_events_def)

lemma flags_observer_callback:
  "map is_active (sections (observer_callback entries x)) =
     fold (\<lambda>entry fl. if fst entry < length fl then fl[fst entry := (0.5 < snd entry)] else fl)
       entries (map is_active (sections x))"
  unfolding observer_callback_def
proof (induction entries arbitrary: x)
  case Nil
  then show ?case by simp
next
  case (Cons entry entries)
  have "map is_active (sections (observe_entry entry x)) =
        (if fst entry < length (map is_active (sections x))
         then (map is_active (sections x))[fst entry := (0.5 < snd entry)]
         else map is_active (sections x))"
    using flags_observe_entry[of "fst entry" "snd entry" x] by simp
  then show ?case using Cons.IH[of "observe_entry entry x"] by simp
qed

lemma scroll_settled_restores:
  assumes "distinct (map sec_id (sections x))" and "sections x \<noteq> []"
  shows "active_count (scroll_settled x) = 1"
proof -
  from chooseClosestSection_spec[OF assms(2)] obtain i where
    i: "i < length (sections x)" and c: "chooseClosestSection x = Some i" by blast
  have "sec_id (sections x ! i) \<in> set (map sec_id (sections x))" using i by simp
  from active_count_setActiveSection[OF assms(1) this] show ?thesis
    using c by (simp add: scroll_settled_def getSections_def)
qed

lemma navigate_restores:
  assumes "distinct (map sec_id (sections x))" and "ident \<in> set (map sec_id (sections x))"
    and "ident \<noteq> []"
  shows "active_count (navigateToSection ident x) = 1"
proof -
  have "sections (navigateToSection ident x) = map (activate ident) (sections x)"
    by (rule navigate_section_id[OF assms])
  moreover have "active_count (setActiveSection ident x) = 1"
    by (rule active_count_setActiveSection[OF assms(1,2)])
  ultimately show ?thesis by (simp add: active_count_def)
qed

text \<open>
  Claim C1, as the code has it. On a page with at least one section and pairwise
  distinct section ids, take any interleaving of observer callbacks, layout changes,
  scroll-settle resolutions, key presses and navigation requests after the bootstrap.
  Exactly one section is active whenever the events since the last activation with a
  section's id (the bootstrap, a scroll-settle resolution, a navigation request to the
  id of a section) hold no observer callback and no navigation request to the id of an
  element that is not a section. An observer callback sets the flag of each section it
  reports to whether its ratio exceeds one half, and leaves the other flags alone.
\<close>

theorem single_active_restored:
  assumes "sections d \<noteq> []" and "distinct (map sec_id (sections d))"
    and "\<forall>e \<in> set after. through_controller d e"
  shows "active_count (run_events after (bootstrap d)) = 1 \<and>
         active_count (run_events (before @ ScrollSettled # after) (bootstrap d)) = 1 \<and>
         (ident \<in> set (map sec_id (sections d)) \<and> ident \<noteq> [] \<longrightarrow>
            active_count (run_events (before @ Navigate ident # after) (bootstrap d)) = 1) \<and>
         (\<forall>entries x. map is_active (sections (handle (ObserverCallback entries) x)) =
            fold (\<lambda>entry fl. if fst entry < length fl
                              then fl[fst entry := (0.5 < snd entry)] else fl)
              entries (map is_active (sections x)))"
proof -
  let ?x = "run_events before (bootstrap d)"
  have b: "active_count (bootstrap d) = 1"
    "map sec_id (sections (bootstrap d)) = map sec_id (sections d)"
    "other_ids (bootstrap d) = other_ids d"
    using bootstrap_single[OF assms(1,2)] by simp_all
  have ids: "map sec_id (sections ?x) = map sec_id (sections d)" "other_ids ?x = other_ids d"
    using ids_run_events[of before "bootstrap d"] b by simp_all
  have dx: "distinct (map sec_id (sections ?x))" using ids assms(2) by simp
  have nx: "sections ?x \<noteq> []" using arg_cong[OF ids(1), of length] assms(1) by auto
  have first: "active_count (run_events after (bootstrap d)) = 1"
    by (rule run_keeps_single[OF assms(2,3) b])
  have s: "active_count (scroll_settled ?x) = 1"
    by (rule scroll_settled_restores[OF dx nx])
  have si: "map sec_id (sections (scroll_settled ?x)) = map sec_id (sections d)"
    "other_ids (scroll_settled ?x) = other_ids d"
    using ids_handle[of ScrollSettled ?x] ids by simp_all
  have settle: "active_count (run_events (before @ ScrollSettled # after) (bootstrap d)) = 1"
    unfolding run_events_append using run_keeps_single[OF assms(2,3) s si] by simp
  have nav: "ident \<in> set (map sec_id (sections d)) \<and> ident \<noteq> [] \<longrightarrow>
      active_count (run_events (before @ Navigate ident # after) (bootstrap d)) = 1"
  proof
    assume a: "ident \<in> set (map sec_id (sections d)) \<and> ident \<noteq> []"
    then have m: "ident \<in> set (map sec_id (sections ?x))" using ids by simp
    have n: "active_count (navigateToSection ident ?x) = 1"
      by (rule navigate_restores[OF dx m]) (use a in simp)
    have ni: "map sec_id (sections (navigateToSection ident ?x)) = map sec_id (sections d)"
      "other_ids (navigateToSection ident ?x) = other_ids d"
      using ids_navigateToSection[of ident ?x] ids by simp_all
    show "active_count (run_events (before @ Navigate ident # after) (bootstrap d)) = 1"
      unfolding run_events_append using run_keeps_single[OF assms(2,3) n ni] by simp
  qed
  have obs: "\<forall>entries x. map is_active (sections (handle (ObserverCallback entries) x)) =
            fold (\<lambda>entry fl. if fst entry < length fl
                              then fl[fst entry := (0.5 < snd entry)] else fl)
              entries (map is_active (sections x))"
    by (simp add: flags_observer_callback)
  from first settle nav obs show ?thesis by blast
qed

theorem single_active_restored_witness:
  "sections sample_doc \<noteq> [] \<and> distinct (map sec_id (sections sample_doc)) \<and>
   list_all (through_controller sample_doc)
     [KeyDown ''ArrowDown'', Layout [(-800, 800), (0, 800), (800, 800)] 800,
      Navigate ''nowhere''] \<and>
   ''contact'' \<in> set (map sec_id (sections sample_doc)) \<and>
   active_count (run_events
     ([ObserverCallback [(0, 6 / 10), (1, 0), (2, 0)], ObserverCallback [(0, 3 / 10)]] @
      ScrollSettled #
      [KeyDown ''ArrowDown'', Layout [(-800, 800), (0, 800), (800, 800)] 800,
       Navigate ''nowhere'']) (bootstrap sample_doc)) = 1 \<and>
   active_count (run_events
     ([ObserverCallback [(0, 6 / 10), (1, 0), (2, 0)], ObserverCallback [(0, 3 / 10)]] @
      Navigate ''contact'' #
      [KeyDown ''ArrowDown'', Layout [(-800, 800), (0, 800), (800, 800)] 800,
       Navigate ''nowhere'']) (bootstrap sample_doc)) = 1 \<and>
   map is_active (sections
     (handle (ObserverCallback [(0, 6 / 10), (1, 0), (2, 0)]) (bootstrap sample_doc))) =
     [True, False, False]"
proof -
  let ?after = "[KeyDown ''ArrowDown'', Layout [(-800, 800), (0, 800), (800, 800)] 800,
      Navigate ''nowhere'']"
  let ?before = "[ObserverCallback [(0, 6 / 10), (1, 0), (2, 0)], ObserverCallback [(0, 3 / 10)]]"
  have h: "sections sample_doc \<noteq> []" "distinct (map sec_id (sections sample_doc))"
    "\<forall>e \<in> set ?after. through_controller sample_doc e"
    by (simp_all add: sample_doc_def sample_section_def)
  have l: "list_all (through_controller sample_doc) ?after"
    using h(3) by (simp only: list_all_iff)
  have c: "''contact'' \<in> set (map sec_id (sections sample_doc))"
    by (simp only: sample_ids) simp
  note T = single_active_restored[OF h, of ?before "''contact''"]
  have s: "active_count (run_events (?before @ ScrollSettled # ?after)
      (bootstrap sample_doc)) = 1"
    by (rule T[THEN conjunct2, THEN conjunct1])
  have n: "active_count (run_events (?before @ Navigate ''contact'' # ?after)
      (bootstrap sample_doc)) = 1"
    by (rule T[THEN conjunct2, THEN conjunct2, THEN conjunct1, THEN mp]) (use c in simp)
  have "map is_active (sections
     (handle (ObserverCallback [(0, 6 / 10), (1, 0), (2, 0)]) (bootstrap sample_doc))) =
     fold (\<lambda>entry fl. if fst entry < length fl
                              then fl[fst entry := (0.5 < snd entry)] else fl)
       [(0, 6 / 10 :: real), (1, 0), (2, 0)] (map is_active (sections (bootstrap sample_doc)))"
    by (rule T[THEN conjunct2, THEN conjunct2, THEN conjunct2, rule_format])
  then have o: "map is_active (sections
     (handle (ObserverCallback [(0, 6 / 10), (1, 0), (2, 0)]) (bootstrap sample_doc))) =
     [True, False, False]"
    by (simp add: flags_bootstrap_sample)
  from h(1,2) l c s n o show ?thesis by blast
qed

text \<open>
  Right after an observer callback the invariant can fail: after the bootstrap, one
  callback reporting the first section below the threshold leaves no section active,
  and one reporting the second section above it leaves two.
\<close>

theorem observer_breaks_single_active:
  "active_count (bootstrap sample_doc) = 1 \<and>
   active_count (run_events [ObserverCallback [(0, 3 / 10)]] (bootstrap sample_doc)) = 0 \<and>
   active_count (run_events [ObserverCallback [(1, 9 / 10)]] (bootstrap sample_doc)) = 2"
proof -
  have l: "length (sections (bootstrap sample_doc)) = 3"
    using arg_cong[OF flags_bootstrap_sample, of length] by simp
  show ?thesis
    by (simp add: active_count_flags run_events_def observer_callback_def flags_observe_entry
        flags_bootstrap_sample l)
qed

text \<open>A navigation request to the id of an element that is not a section clears every flag.\<close>

lemma navigation_to_other_element:
  "getElementById ''year'' (bootstrap sample_doc) = Some ''year'' \<and>
   active_count (run_events [Navigate ''year''] (bootstrap sample_doc)) = 0"
proof -
  have b: "bootstrap sample_doc = setActiveSection ''home'' sample_doc"
    by (simp add: bootstrap_def getSections_def sample_doc_def sample_section_def)
  have g: "getElementById ''year'' (bootstrap sample_doc) = Some ''year''"
    unfolding b by (simp add: getElementById_def sample_doc_def)
  have "map is_active (sections (navigateToSection ''year'' (bootstrap sample_doc))) =
        map (\<lambda>s. sec_id s = ''year'') (sections (bootstrap sample_doc))"
    by (simp add: navigateToSection_def g)
  also have "\<dots> = map (\<lambda>i. i = ''year'') (map sec_id (sections (bootstrap sample_doc)))"
    by (simp add: comp_def)
  also have "\<dots> = [False, False, False]"
    unfolding b ids_setActiveSection sample_ids by simp
  finally show ?thesis using g by (simp add: active_count_flags run_events_def)
qed

section \<open>Keyboard navigation\<close>

lemma findIndex_unique:
  "k < length xs \<Longrightarrow> (\<forall>j < length xs. P (xs ! j) \<longleftrightarrow> j = k) \<Longrightarrow> findIndex P xs = int k"
proof (induction xs arbitrary: k)
  case Nil
  then show ?case by simp
next
  case (Cons x xs)
  show ?case
  proof (cases k)
    case 0
    then have "P x" using Cons.prems(2) by auto
    then show ?thesis using 0 by simp
  next
    case (Suc m)
    then have nx: "\<not> P x" using Cons.prems(2) by auto
    have m: "m < length xs" using Cons.prems(1) Suc by simp
    have "\<forall>j < length xs. P (xs ! j) \<longleftrightarrow> j = m"
    proof (intro allI impI)
      fix j assume "j < length xs"
      then show "P (xs ! j) \<longleftrightarrow> j = m" using Cons.prems(2)[rule_format, of "Suc j"] Suc by simp
    qed
    from Cons.IH[OF m this] show ?thesis using nx Suc by (simp add: Let_def)
  qed
qed

lemma navigate_activates_only:
  assumes "distinct (map sec_id (sections d))" and "k < length (sections d)"
    and "sec_id (sections d ! k) \<noteq> []"
  shows "length (sections (navigateToSection (sec_id (sections d ! k)) d)) = length (sections d) \<and>
         (\<forall>j < length (sections d).
            is_active (sections (navigateToSection (sec_id (sections d ! k)) d) ! j) \<longleftrightarrow> j = k) \<and>
         getActiveIndex (navigateToSection (sec_id (sections d ! k)) d) = int k"
proof -
  let ?d' = "navigateToSection (sec_id (sections d ! k)) d"
  have mem: "sec_id (sections d ! k) \<in> set (map sec_id (sections d))" using assms(2) by simp
  have s: "sections ?d' = map (activate (sec_id (sections d ! k))) (sections d)"
    by (rule navigate_section_id[OF assms(1) mem assms(3)])
  have len: "length (sections ?d') = length (sections d)" by (simp add: s)
  have act: "\<forall>j < length (sections d). is_active (sections ?d' ! j) \<longleftrightarrow> j = k"
  proof (intro allI impI)
    fix j assume j: "j < length (sections d)"
    have "(map sec_id (sections d) ! j = map sec_id (sections d) ! k) = (j = k)"
      using assms(1,2) j by (simp only: nth_eq_iff_index_eq length_map)
    then show "is_active (sections ?d' ! j) \<longleftrightarrow> j = k" using j assms(2) by (simp add: s)
  qed
  have "findIndex is_active (sections ?d') = int k"
    by (rule findIndex_unique) (use assms(2) len act in simp_all)
  then show ?thesis using len act by (simp add: getActiveIndex_def getSections_def)
qed

lemma findIndex_flags: "findIndex P xs = findIndex (\<lambda>b. b) (map P xs)"
  by (induction xs) (simp_all add: Let_def)

lemma getActiveIndex_flags:
  "getActiveIndex d = findIndex (\<lambda>b. b) (map is_active (sections d))"
  unfolding getActiveIndex_def getSections_def by (rule findIndex_flags)

text \<open>
  Claim C7. Every section has an id of its own. With \<open>idx\<close> the position of the active
  section: \<^verbatim>\<open>ArrowDown\<close> and \<^verbatim>\<open>PageDown\<close> make section \<open>idx + 1\<close> the only active one,
  unless \<open>idx\<close> is the last position, where they change nothing; \<^verbatim>\<open>ArrowUp\<close> and
  \<^verbatim>\<open>PageUp\<close> make section \<open>idx - 1\<close> the only active one, unless \<open>idx\<close> is the
  first position, where they change nothing. In particular \<^verbatim>\<open>ArrowUp\<close> with the first
  section active leaves the document as it is.
\<close>

theorem keyboard_navigation:
  assumes "distinct (map sec_id (sections d))" and "[] \<notin> set (map sec_id (sections d))"
  shows "(key = ''ArrowDown'' \<or> key = ''PageDown'' \<longrightarrow>
            (if getActiveIndex d < int (length (sections d)) - 1
             then length (sections (keydown key d)) = length (sections d) \<and>
                  (\<forall>j < length (sections d).
                     is_active (sections (keydown key d) ! j) \<longleftrightarrow> int j = getActiveIndex d + 1) \<and>
                  getActiveIndex (keydown key d) = getActiveIndex d + 1
             else keydown key d = d)) \<and>
         (key = ''ArrowUp'' \<or> key = ''PageUp'' \<longrightarrow>
            (if 0 < getActiveIndex d
             then length (sections (keydown key d)) = length (sections d) \<and>
                  (\<forall>j < length (sections d).
                     is_active (sections (keydown key d) ! j) \<longleftrightarrow> int j = getActiveIndex d - 1) \<and>
                  getActiveIndex (keydown key d) = getActiveIndex d - 1
             else keydown key d = d)) \<and>
         (getActiveIndex d = 0 \<longrightarrow>
            keydown ''ArrowUp'' d = d \<and> getActiveIndex (keydown ''ArrowUp'' d) = 0)"
proof -
  have range: "-1 \<le> getActiveIndex d" "getActiveIndex d < int (length (sections d))"
    using findIndex_range[of is_active "sections d"]
    by (simp_all add: getActiveIndex_def getSections_def)
  have ids: "\<And>k. k < length (sections d) \<Longrightarrow> sec_id (sections d ! k) \<noteq> []"
    using assms(2) by (metis length_map nth_map nth_mem)
  have down: "key = ''ArrowDown'' \<or> key = ''PageDown'' \<Longrightarrow>
      keydown key d = goToNextSection d" by (auto simp: keydown_def)
  have up: "key = ''ArrowUp'' \<or> key = ''PageUp'' \<Longrightarrow>
      keydown key d = goToPrevSection d" by (auto simp: keydown_def)
  have nxt: "getActiveIndex d < int (length (sections d)) - 1 \<Longrightarrow>
      length (sections (goToNextSection d)) = length (sections d) \<and>
      (\<forall>j < length (sections d).
          is_active (sections (goToNextSection d) ! j) \<longleftrightarrow> int j = getActiveIndex d + 1) \<and>
      getActiveIndex (goToNextSection d) = getActiveIndex d + 1"
  proof -
    assume a: "getActiveIndex d < int (length (sections d)) - 1"
    from range obtain k where gk: "getActiveIndex d + 1 = int k"
      using nonneg_int_cases[of "getActiveIndex d + 1"] by force
    have k: "k < length (sections d)" using a gk by linarith
    have e: "goToNextSection d = navigateToSection (sec_id (sections d ! k)) d"
      using a gk by (simp add: goToNextSection_def Let_def getSections_def)
    from navigate_activates_only[OF assms(1) k ids[OF k]] show ?thesis
      by (simp add: e gk)
  qed
  have prv: "0 < getActiveIndex d \<Longrightarrow>
      length (sections (goToPrevSection d)) = length (sections d) \<and>
      (\<forall>j < length (sections d).
          is_active (sections (goToPrevSection d) ! j) \<longleftrightarrow> int j = getActiveIndex d - 1) \<and>
      getActiveIndex (goToPrevSection d) = getActiveIndex d - 1"
  proof -
    assume a: "0 < getActiveIndex d"
    from a obtain k where gk: "getActiveIndex d - 1 = int k"
      using nonneg_int_cases[of "getActiveIndex d - 1"] by force
    have k: "k < length (sections d)" using range gk by linarith
    have e: "goToPrevSection d = navigateToSection (sec_id (sections d ! k)) d"
      using a gk by (simp add: goToPrevSection_def Let_def getSections_def)
    from navigate_activates_only[OF assms(1) k ids[OF k]] show ?thesis
      by (simp add: e gk)
  qed
  have last: "\<not> getActiveIndex d < int (length (sections d)) - 1 \<Longrightarrow> goToNextSection d = d"
    by (simp add: goToNextSection_def Let_def getSections_def)
  have first: "\<not> 0 < getActiveIndex d \<Longrightarrow> goToPrevSection d = d"
    by (simp add: goToPrevSection_def Let_def)
  have top: "getActiveIndex d = 0 \<Longrightarrow> keydown ''ArrowUp'' d = d"
    using first by (simp add: keydown_def)
  show ?thesis using down up nxt prv last first top by auto
qed

theorem keyboard_navigation_witness:
  "distinct (map sec_id (sections (bootstrap sample_doc))) \<and>
   [] \<notin> set (map sec_id (sections (bootstrap sample_doc))) \<and>
   getActiveIndex (bootstrap sample_doc) = 0 \<and>
   \<not> is_active (sections (keydown ''ArrowDown'' (bootstrap sample_doc)) ! 0) \<and>
   is_active (sections (keydown ''ArrowDown'' (bootstrap sample_doc)) ! 1) \<and>
   \<not> is_active (sections (keydown ''ArrowDown'' (bootstrap sample_doc)) ! 2) \<and>
   getActiveIndex (keydown ''ArrowDown'' (bootstrap sample_doc)) = 1 \<and>
   keydown ''ArrowUp'' (bootstrap sample_doc) = bootstrap sample_doc \<and>
   getActiveIndex (setActiveSection ''contact'' sample_doc) = 2 \<and>
   keydown ''PageDown'' (setActiveSection ''contact'' sample_doc) =
     setActiveSection ''contact'' sample_doc"
proof -
  let ?b = "bootstrap sample_doc" and ?c = "setActiveSection ''contact'' sample_doc"
  have b: "?b = setActiveSection ''home'' sample_doc"
    by (simp add: bootstrap_def getSections_def sample_doc_def sample_section_def)
  have ids: "map sec_id (sections ?b) = [''home'', ''about'', ''contact'']"
    "map sec_id (sections ?c) = [''home'', ''about'', ''contact'']"
    by (simp_all only: b ids_setActiveSection sample_ids)
  have d: "distinct (map sec_id (sections ?b))" "distinct (map sec_id (sections ?c))"
    by (simp_all only: ids) simp_all
  have ne: "[] \<notin> set (map sec_id (sections ?b))" "[] \<notin> set (map sec_id (sections ?c))"
    by (simp_all only: ids) simp_all
  have lb: "length (sections ?b) = 3" using arg_cong[OF ids(1), of length] by simp
  have lc: "length (sections ?c) = 3" using arg_cong[OF ids(2), of length] by simp
  have ib: "getActiveIndex ?b = 0"
    by (simp only: getActiveIndex_flags flags_bootstrap_sample) simp
  have "map is_active (sections ?c) = [False, False, True]"
    by (simp add: sample_doc_def sample_section_def)
  then have ic: "getActiveIndex ?c = 2"
    by (simp only: getActiveIndex_flags) simp
  from keyboard_navigation[OF d(1) ne(1), of "''ArrowDown''"] ib lb
  have down: "(\<forall>j < 3. is_active (sections (keydown ''ArrowDown'' ?b) ! j) \<longleftrightarrow> int j = 1) \<and>
     getActiveIndex (keydown ''ArrowDown'' ?b) = 1" by simp
  then have d0: "\<not> is_active (sections (keydown ''ArrowDown'' ?b) ! 0)"
    and d1: "is_active (sections (keydown ''ArrowDown'' ?b) ! 1)"
    and d2: "\<not> is_active (sections (keydown ''ArrowDown'' ?b) ! 2)"
    by simp_all
  from keyboard_navigation[OF d(1) ne(1), of "''ArrowUp''"] ib
  have up: "keydown ''ArrowUp'' ?b = ?b" by simp
  from keyboard_navigation[OF d(2) ne(2), of "''PageDown''"] ic lc
  have pd: "keydown ''PageDown'' ?c = ?c" by simp
  from d(1) ne(1) ib d0 d1 d2 down up ic pd show ?thesis by blast
qed

section \<open>Properties of the theme\<close>


lemma updateThemeButton_thrown:
  "thrown (updateThemeButton t p) = None \<or> thrown (updateThemeButton t p) = Some TypeError"
  by (simp add: updateThemeButton_def Let_def split: option.splits)



lemma Theme_toggle_thrown:
  "thrown (Theme_toggle p) = None \<or> thrown (Theme_toggle p) = Some TypeError"
  unfolding Theme_toggle_def Let_def by (rule updateThemeButton_thrown)




text \<open>
  Claim C9. The write in \<^verbatim>\<open>Theme.toggle\<close> ignores a storage failure, the read in
  \<^verbatim>\<open>Theme.init\<close> does not: on a host that denies access to storage \<^verbatim>\<open>Theme.init\<close>
  throws, the load handler stops at its first statement, and the page is left with no
  listener and no active section.
\<close>

theorem Theme_init_storage_failure:
  "thrown (Theme_init denied_page) = Some SecurityError \<and>
   onDOMContentLoaded 2025 denied_page = Throws SecurityError denied_page \<and>
   listeners denied_page = [] \<and> active_count (pg_doc denied_page) = 0 \<and>
   thrown (Theme_toggle denied_page) = None"
proof -
  have i: "Theme_init denied_page = Throws SecurityError denied_page"
    by (simp add: Theme_init_def getItem_def denied_page_def sample_page_def)
  have t: "thrown (Theme_toggle denied_page) = None"
    by (simp add: Theme_toggle_def Let_def setItem_def denied_page_def sample_page_def
        updateThemeButton_def current_theme_def)
  have a: "active_count (pg_doc denied_page) = 0"
    by (simp add: active_count_def denied_page_def sample_page_def sample_doc_def
        sample_section_def is_active_def classList_contains_def)
  have l: "listeners denied_page = []" by (simp add: denied_page_def sample_page_def)
  show ?thesis using t a l by (simp add: onDOMContentLoaded_def i)
qed

section \<open>Properties of the contact form\<close>

lemma submit_script_no_effect: "state_of (submit_script g f) = f"
  by (simp add: submit_script_def split: option.splits)

lemma trim_samples:
  "trim [] = []" "trim (code_units ''Ada'') = code_units ''Ada''"
  "trim (code_units ''Hello'') = code_units ''Hello''"
  "trim (code_units ''ada@example.org'') = code_units ''ada@example.org''"
  by (simp_all add: trim_def is_space_def code_units_def)

lemma units_nonempty:
  "code_units ''Ada'' \<noteq> []" "code_units ''Hello'' \<noteq> []"
  "code_units ''ada@example.org'' \<noteq> []"
  by (simp_all add: code_units_def)

lemma trim_unicode_space: "trim [0xA0, 0x20, 65, 0x2003, 0x3000] = [65]"
  by (simp add: trim_def is_space_def)

lemma email_sample:
  "isEmailValid (code_units ''ada@example.org'')" "\<not> isEmailValid (code_units ''ada@example'')"
  "\<not> isEmailValid (code_units ''ada example@x.org'')" "\<not> isEmailValid (code_units ''@x.org'')"
  by (simp_all add: isEmailValid_def Let_def is_space_def code_units_def)

text \<open>
  Claim C5. Submitting the form with an empty name: the listener of \<^verbatim>\<open>script.js\<close>
  throws before any validation and leaves the name's error slot and the status empty;
  the listener of the earlier copy sets the error \<^verbatim>\<open>Please enter your name.\<close> and the
  status \<^verbatim>\<open>Please fix the errors above.\<close>
\<close>

theorem script_submit_skips_validation:
  "map_option fvalue (name_field blank_form) = Some [] \<and>
   submit_script no_globals blank_form = Throws ReferenceError blank_form \<and>
   map_option error_slot (name_field (state_of (submit_script no_globals blank_form))) = Some (Some []) \<and>
   form_status (state_of (submit_script no_globals blank_form)) = Some [] \<and>
   map_option error_slot (name_field (state_of (submit_validating blank_form))) =
     Some (Some ''Please enter your name.'') \<and>
   form_status (state_of (submit_validating blank_form)) = Some ''Please fix the errors above.''"
  by (simp add: submit_script_def no_globals_def blank_form_def blank_field_def
      submit_validating_def check_name_def check_email_def check_message_def Let_def
      setError_def set_status_def trim_samples email_sample)

text \<open>
  The scenario on the earlier copy: the failed submit keeps the values; the submit of
  the filled form reports success and gives the fields their (empty) defaults back.
\<close>

lemma validating_submit_scenario:
  "submit_validating blank_form =
     Normal (blank_form\<lparr>
       name_field := Some (blank_field\<lparr>error_slot := Some ''Please enter your name.'',
                                        aria_invalid := Some ''true''\<rparr>),
       email_field := Some (blank_field\<lparr>fvalue := code_units ''ada@example.org'', aria_invalid := Some ''false''\<rparr>),
       message_field := Some (blank_field\<lparr>fvalue := code_units ''Hello'', aria_invalid := Some ''false''\<rparr>),
       form_status := Some ''Please fix the errors above.''\<rparr>) \<and>
   form_status (state_of (submit_validating filled_form)) = Some thanks_message \<and>
   map_option fvalue (name_field (state_of (submit_validating filled_form))) = Some [] \<and>
   map_option fvalue (email_field (state_of (submit_validating filled_form))) = Some [] \<and>
   map_option fvalue (message_field (state_of (submit_validating filled_form))) = Some []"
  by (simp add: blank_form_def blank_field_def filled_form_def
      submit_validating_def check_name_def check_email_def check_message_def Let_def
      setError_def set_status_def trim_samples email_sample form_reset_def reset_field_def
      units_nonempty)

section \<open>Missing elements\<close>

text \<open>
  Claim C6. A missing element is to abort the one operation and nothing else. On a page
  whose contact form has no name field, \<^verbatim>\<open>initForm\<close> calls \<^verbatim>\<open>addEventListener\<close> on
  \<^verbatim>\<open>null\<close> and throws; the exception leaves the load handler, which stops after the
  form's submit listener: the year, the carousel, the menu, the scroll watcher and the
  theme button are never set up, and no section is activated.
\<close>

theorem missing_form_field_aborts_load:
  "map_option name_field (contact_form nameless_page) = Some None \<and>
   thrown (initForm nameless_page) = Some TypeError \<and>
   thrown (onDOMContentLoaded 2025 nameless_page) = Some TypeError \<and>
   active_count (pg_doc (state_of (onDOMContentLoaded 2025 nameless_page))) = 0 \<and>
   listeners (state_of (onDOMContentLoaded 2025 nameless_page)) =
     [NavLinkClick, DocKeydown, SectionObserver, FormSubmit]"
  by (simp add: onDOMContentLoaded_def Theme_init_def getItem_def updateThemeButton_def
        initNavigation_def initSectionObserver_def initForm_def add_listener_def Let_def
        nameless_page_def sample_page_def blank_form_def getSections_def
        sample_doc_def sample_section_def active_count_def is_active_def classList_contains_def)

text \<open>
  The lookups that the script does guard behave as the claim says: \<^verbatim>\<open>navigateToSection\<close>
  with an id that matches no element returns the document unchanged;
  \<^verbatim>\<open>initProjectCarousel\<close> without a carousel returns without effect; so do the lookups
  of the contact form, the theme button, the year, the menu button and the navigation
  panel, and an empty list of sections; and with storage accessible and neither theme
  button nor form on the page the load handler runs to its end and activates the first
  section.
\<close>

lemma missing_element_guards:
  "(getElementById ident d = None \<longrightarrow> navigateToSection ident d = d) \<and>
   (project_carousel p = None \<longrightarrow> initProjectCarousel p = Normal p) \<and>
   (contact_form p = None \<longrightarrow> initForm p = Normal p) \<and>
   (theme_toggle p = None \<longrightarrow> updateThemeButton t p = Normal p \<and> hookThemeToggle p = Normal p) \<and>
   (year_el p = None \<longrightarrow> setYear y p = Normal p) \<and>
   (menu_expanded p = None \<or> \<not> primary_nav_present p \<longrightarrow> initMobileMenu p = Normal p) \<and>
   (sections (pg_doc p) = [] \<longrightarrow>
      initSectionObserver p = Normal p \<and> activateFirst p = Normal p \<and>
      scroll_settled (pg_doc p) = pg_doc p) \<and>
   (\<not> access_denied (local_storage p) \<and> theme_toggle p = None \<and> contact_form p = None \<longrightarrow>
      thrown (onDOMContentLoaded y p) = None \<and>
      pg_doc (state_of (onDOMContentLoaded y p)) = bootstrap (pg_doc p))"
proof -
  have nav: "getElementById ident d = None \<longrightarrow> navigateToSection ident d = d"
    by (simp add: navigateToSection_def)
  have car: "project_carousel p = None \<longrightarrow> initProjectCarousel p = Normal p"
    by (simp add: initProjectCarousel_def)
  have frm: "contact_form p = None \<longrightarrow> initForm p = Normal p"
    by (simp add: initForm_def)
  have tb: "theme_toggle p = None \<longrightarrow> updateThemeButton t p = Normal p \<and> hookThemeToggle p = Normal p"
    by (simp add: updateThemeButton_def hookThemeToggle_def)
  have yr: "year_el p = None \<longrightarrow> setYear y p = Normal p"
    by (simp add: setYear_def)
  have mn: "menu_expanded p = None \<or> \<not> primary_nav_present p \<longrightarrow> initMobileMenu p = Normal p"
    by (auto simp add: initMobileMenu_def split: option.splits)
  have sec: "sections (pg_doc p) = [] \<longrightarrow>
      initSectionObserver p = Normal p \<and> activateFirst p = Normal p \<and>
      scroll_settled (pg_doc p) = pg_doc p"
    by (simp add: initSectionObserver_def activateFirst_def bootstrap_def getSections_def
        scroll_settled_def chooseClosestSection_def)
  have boot: "\<not> access_denied (local_storage p) \<and> theme_toggle p = None \<and> contact_form p = None \<longrightarrow>
      thrown (onDOMContentLoaded y p) = None \<and>
      pg_doc (state_of (onDOMContentLoaded y p)) = bootstrap (pg_doc p)"
    by (simp add: onDOMContentLoaded_def Theme_init_def getItem_def updateThemeButton_def
        initNavigation_def initSectionObserver_def initForm_def setYear_def
        initProjectCarousel_def initMobileMenu_def initScrollWatcher_def hookThemeToggle_def
        activateFirst_def add_listener_def Let_def split: option.splits)
  from nav car frm tb yr mn sec boot show ?thesis by blast
qed

lemma missing_element_guards_sample:
  "getElementById ''nowhere'' (pg_doc empty_page) = None \<and>
   navigateToSection ''nowhere'' (pg_doc empty_page) = pg_doc empty_page \<and>
   project_carousel empty_page = None \<and> initProjectCarousel empty_page = Normal empty_page \<and>
   contact_form empty_page = None \<and> initForm empty_page = Normal empty_page \<and>
   theme_toggle empty_page = None \<and> updateThemeButton (Some ''dark'') empty_page = Normal empty_page \<and>
   year_el empty_page = None \<and> setYear 2025 empty_page = Normal empty_page \<and>
   (menu_expanded empty_page = None \<or> \<not> primary_nav_present empty_page) \<and>
   initMobileMenu empty_page = Normal empty_page \<and>
   sections (pg_doc empty_page) = [] \<and> initSectionObserver empty_page = Normal empty_page \<and>
   \<not> access_denied (local_storage bare_page) \<and> theme_toggle bare_page = None \<and>
   contact_form bare_page = None \<and>
   thrown (onDOMContentLoaded 2025 bare_page) = None \<and>
   active_count (pg_doc (state_of (onDOMContentLoaded 2025 bare_page))) = 1"
proof -
  have e: "getElementById ''nowhere'' (pg_doc empty_page) = None"
    "project_carousel empty_page = None" "contact_form empty_page = None"
    "theme_toggle empty_page = None" "year_el empty_page = None"
    "menu_expanded empty_page = None \<or> \<not> primary_nav_present empty_page"
    "sections (pg_doc empty_page) = []"
    by (simp_all add: empty_page_def bare_page_def sample_page_def getElementById_def sample_doc_def)
  have b: "\<not> access_denied (local_storage bare_page)" "theme_toggle bare_page = None"
    "contact_form bare_page = None" "pg_doc bare_page = sample_doc"
    by (simp_all add: bare_page_def sample_page_def)
  have c: "active_count (bootstrap sample_doc) = 1"
    by (simp add: active_count_flags flags_bootstrap_sample)
  from missing_element_guards[of "''nowhere''" "pg_doc empty_page" empty_page "Some ''dark''" 2025]
    missing_element_guards[of "''nowhere''" "pg_doc empty_page" bare_page "Some ''dark''" 2025]
    e b c
  show ?thesis by simp
qed

text \<open>The earlier copy of the script throws where \<^verbatim>\<open>script.js\<close> has the guard.\<close>

lemma unguarded_carousel_throws:
  "project_carousel p = None \<Longrightarrow> initProjectCarousel_unguarded p = Throws TypeError p"
  by (simp add: initProjectCarousel_unguarded_def)

end
